theory Spec2Isabelle
  imports Main "HOL-Library.Word" "HOL-Library.AList"
begin

unbundle bit_operations_syntax

text \<open>
  A model of the session layer of WAFleet: the lease lock (\<open>services/locks.ts\<close>), the
  credential store (\<open>services/waAuthRedis.ts\<close>), the session manager with its reconnect
  backoff and its restore scanner (\<open>services/waSessions.ts\<close>), and the base62 token
  generator of the token store. Every function of these files that the properties below
  talk about is a function here, under its own name, on an explicit state: the shared
  store, the registry of sessions, the sockets, the timers and the log. What the code takes
  from outside (the store's commands, the connector library, the random source, the
  configuration) is a definition of its documented behaviour or a parameter.
\<close>

section \<open>Strings: key patterns of the shared store\<close>

text \<open>
  Keys and values are strings of 8-bit characters. The store enumerates keys with
  glob-style patterns (\<open>SCAN ... MATCH\<close>); the session manager reads identifiers back out
  of keys with three regular expressions. Both are modelled on the strings themselves.
\<close>

fun strip_prefix :: "string \<Rightarrow> string \<Rightarrow> string option" where
  "strip_prefix [] s = Some s"
| "strip_prefix (p # ps) [] = None"
| "strip_prefix (p # ps) (c # cs) = (if p = c then strip_prefix ps cs else None)"

definition strip_suffix :: "string \<Rightarrow> string \<Rightarrow> string option" where
  "strip_suffix p s = map_option rev (strip_prefix (rev p) (rev s))"

text \<open>
  Glob matching as the store performs it for \<open>MATCH\<close>: \<open>*\<close> matches any run of characters,
  \<open>?\<close> one character, \<open>[...]\<close> a character class (with \<open>^\<close> negation, \<open>a-z\<close> ranges and
  \<open>\\<close> escapes), \<open>\\<close> takes the next character literally. \<open>glob_class\<close> scans the body
  of a class for the character \<open>c\<close> and returns whether it was found and the pattern after
  the closing bracket.
\<close>

definition in_range :: "char \<Rightarrow> char \<Rightarrow> char \<Rightarrow> bool" where
  "in_range a b c =
     (let lo = min (of_char a :: nat) (of_char b); hi = max (of_char a :: nat) (of_char b)
      in lo \<le> of_char c \<and> of_char c \<le> hi)"

fun glob_class :: "string \<Rightarrow> char \<Rightarrow> bool \<Rightarrow> bool \<times> string" where
  "glob_class [] c m = (m, [])"
| "glob_class [p] c m = (if p = CHR '']'' then (m, []) else (m \<or> p = c, []))"
| "glob_class (p # q # ps) c m =
     (if p = CHR 0x5C then glob_class ps c (m \<or> q = c)
      else if p = CHR '']'' then (m, q # ps)
      else if q = CHR ''-'' \<and> ps \<noteq> []
        then (case ps of e # ps' \<Rightarrow> glob_class ps' c (m \<or> in_range p e c) | [] \<Rightarrow> (m, []))
      else glob_class (q # ps) c (m \<or> p = c))"

fun glob :: "string \<Rightarrow> string \<Rightarrow> bool" where
  "glob [] s = (s = [])"
| "glob (p # ps) [] = (p = CHR ''*'' \<and> glob ps [])"
| "glob (p # ps) (c # cs) =
     (if p = CHR ''*'' then glob ps (c # cs) \<or> glob (p # ps) cs
      else if p = CHR ''?'' then glob ps cs
      else if p = CHR ''[''
        then (case ps of
                q # qs \<Rightarrow>
                  (if q = CHR ''^''
                   then (case glob_class qs c False of (m, rest) \<Rightarrow> \<not> m \<and> glob rest cs)
                   else (case glob_class ps c False of (m, rest) \<Rightarrow> m \<and> glob rest cs))
              | [] \<Rightarrow> False)
      else if p = CHR 0x5C
        then (case ps of q # qs \<Rightarrow> q = c \<and> glob qs cs | [] \<Rightarrow> p = c \<and> cs = [])
      else p = c \<and> glob ps cs)"

definition stringmatch :: "string \<Rightarrow> string \<Rightarrow> bool" where
  "stringmatch pattern s = (if s = [] then pattern = [] else glob pattern s)"

text \<open>
  The regular expressions of \<open>extractIdFromKey\<close>. In \<open>/^sess:([^:]+):tokens$/\<close> the group is
  a non-empty run without a colon; in \<open>/^baileys:(.+):creds$/\<close> and \<open>/^lock:wa:(.+)$/\<close> it is
  a non-empty run of characters that \<open>.\<close> accepts: any character but the four line
  terminators U+000A, U+000D, U+2028 and U+2029. A key is the UTF-8 encoding of the
  program's string, where the last two are the bytes \<open>E2 80 A8\<close> and \<open>E2 80 A9\<close>.
  \<open>js_dot s\<close> tells whether \<open>.\<close> accepts the character at the head of \<open>s\<close>, and \<open>js_dot_plus\<close>
  whether \<open>.+\<close> matches the whole of a string.
\<close>

definition js_dot :: "string \<Rightarrow> bool" where
  "js_dot s =
     (strip_prefix [CHR 0x0A] s = None \<and> strip_prefix [CHR 0x0D] s = None
      \<and> strip_prefix [CHR 0xE2, CHR 0x80, CHR 0xA8] s = None
      \<and> strip_prefix [CHR 0xE2, CHR 0x80, CHR 0xA9] s = None)"

fun js_dot_star :: "string \<Rightarrow> bool" where
  "js_dot_star [] = True"
| "js_dot_star (c # cs) = (js_dot (c # cs) \<and> js_dot_star cs)"

definition js_dot_plus :: "string \<Rightarrow> bool" where
  "js_dot_plus g = (g \<noteq> [] \<and> js_dot_star g)"

definition re_sess_tokens :: "string \<Rightarrow> string option" where
  "re_sess_tokens k =
     (case strip_prefix ''sess:'' k of
        None \<Rightarrow> None
      | Some r \<Rightarrow>
          (case strip_suffix '':tokens'' r of
             None \<Rightarrow> None
           | Some g \<Rightarrow> if g \<noteq> [] \<and> CHR '':'' \<notin> set g then Some g else None))"

definition re_baileys_creds :: "string \<Rightarrow> string option" where
  "re_baileys_creds k =
     (case strip_prefix ''baileys:'' k of
        None \<Rightarrow> None
      | Some r \<Rightarrow>
          (case strip_suffix '':creds'' r of
             None \<Rightarrow> None
           | Some g \<Rightarrow> if js_dot_plus g then Some g else None))"

definition re_lock_wa :: "string \<Rightarrow> string option" where
  "re_lock_wa k =
     (case strip_prefix ''lock:wa:'' k of
        None \<Rightarrow> None
      | Some g \<Rightarrow> if js_dot_plus g then Some g else None)"

definition extractIdFromKey :: "string \<Rightarrow> string option" where
  "extractIdFromKey k =
     (case re_sess_tokens k of
        Some g \<Rightarrow> Some g
      | None \<Rightarrow>
          (case re_baileys_creds k of
             Some g \<Rightarrow> Some g
           | None \<Rightarrow> re_lock_wa k))"

section \<open>The shared store\<close>

text \<open>
  A key holds a string with an optional remaining time to live in milliseconds, or a set of
  strings. The store is an association list, so that its keys can be enumerated. A command
  applied to a key of the wrong kind is answered with an error, as is a command with an
  argument the store rejects. The errors a caller can see are the session manager's own
  "locked by another instance" (code 423), an error reply of the store, and a \<open>TypeError\<close>
  of the runtime.
\<close>

datatype rval = RString string "nat option" | RSet "string list"

type_synonym redis = "(string \<times> rval) list"

datatype error =
    Locked string
  | ReplyError string
  | TypeError string

definition WRONGTYPE :: error where
  "WRONGTYPE = ReplyError ''WRONGTYPE Operation against a key holding the wrong kind of value''"

definition redis_get :: "redis \<Rightarrow> string \<Rightarrow> error + string option" where
  "redis_get r k =
     (case map_of r k of
        None \<Rightarrow> Inr None
      | Some (RString v t) \<Rightarrow> Inr (Some v)
      | Some (RSet m) \<Rightarrow> Inl WRONGTYPE)"

definition redis_set :: "redis \<Rightarrow> string \<Rightarrow> string \<Rightarrow> redis" where
  "redis_set r k v = AList.update k (RString v None) r"

definition redis_set_px_nx :: "redis \<Rightarrow> string \<Rightarrow> string \<Rightarrow> nat \<Rightarrow> error + bool \<times> redis" where
  "redis_set_px_nx r k v ttl =
     (if ttl = 0 then Inl (ReplyError ''ERR invalid expire time in set'')
      else if map_of r k = None then Inr (True, AList.update k (RString v (Some ttl)) r)
      else Inr (False, r))"

fun redis_del :: "redis \<Rightarrow> string list \<Rightarrow> redis" where
  "redis_del r [] = r"
| "redis_del r (k # ks) = redis_del (AList.delete k r) ks"

definition redis_smembers :: "redis \<Rightarrow> string \<Rightarrow> error + string list" where
  "redis_smembers r k =
     (case map_of r k of
        None \<Rightarrow> Inr []
      | Some (RSet m) \<Rightarrow> Inr m
      | Some (RString v t) \<Rightarrow> Inl WRONGTYPE)"

definition redis_sadd :: "redis \<Rightarrow> string \<Rightarrow> string \<Rightarrow> error + redis" where
  "redis_sadd r k v =
     (case map_of r k of
        None \<Rightarrow> Inr (AList.update k (RSet [v]) r)
      | Some (RSet m) \<Rightarrow> Inr (AList.update k (RSet (List.insert v m)) r)
      | Some (RString w t) \<Rightarrow> Inl WRONGTYPE)"

text \<open>
  \<open>SCAN cursor MATCH pattern COUNT n\<close>: the cursor walks the keys in pages of \<open>n\<close>; the reply
  is the next cursor (0 once the walk is complete) and the keys of the page that match.
\<close>

definition redis_scan :: "redis \<Rightarrow> nat \<Rightarrow> string \<Rightarrow> nat \<Rightarrow> error + nat \<times> string list" where
  "redis_scan r cursor pattern n =
     (if n = 0 then Inl (ReplyError ''ERR syntax error'')
      else Inr (if length r \<le> cursor + n then 0 else cursor + n,
                filter (stringmatch pattern) (map fst (take n (drop cursor r)))))"


section \<open>Configuration and process state\<close>

text \<open>
  The values read from the environment (\<open>LOCK_TTL_MS\<close>, \<open>LOCK_RENEW_EVERY_MS\<close>,
  \<open>WS_RECONNECT_MIN_MS\<close>, \<open>WS_RECONNECT_MAX_MS\<close>, \<open>RESTORE_SCAN_COUNT\<close>,
  \<open>RESTORE_LOCK_RETRIES\<close>, \<open>RESTORE_LOCK_RETRY_DELAY_MS\<close>), and the fallbacks the modules
  use when a variable is absent. Delays and counts are the integers the configuration
  holds; the reconnect delays and the retry count may be negative.
\<close>

record config =
  LOCK_TTL_MS :: nat
  RENEW_EVERY_MS :: nat
  RECONNECT_MIN :: int
  RECONNECT_MAX :: int
  SCAN_COUNT :: nat
  RETRIES :: int
  RETRY_DELAY_MS :: nat

definition fallback_config :: config where
  "fallback_config =
     \<lparr> LOCK_TTL_MS = 10000, RENEW_EVERY_MS = 5000, RECONNECT_MIN = 2000, RECONNECT_MAX = 30000,
       SCAN_COUNT = 200, RETRIES = 5, RETRY_DELAY_MS = 2000 \<rparr>"

datatype SessionStatus = connecting | open' | close

text \<open>
  A \<open>SessionLock\<close> is the key, the holder's token and the handle of the renew interval; its
  \<open>release\<close> closure is the function \<open>release\<close> below applied to the record.
\<close>

record SessionLock =
  key :: string
  token :: string
  renewTimer :: nat

text \<open>
  A \<open>SessionEntry\<close>. The optional fields \<open>reconnecting\<close> and \<open>backoffTimer\<close> are only ever
  tested for truth, so an absent \<open>reconnecting\<close> is \<open>False\<close> and an absent or null
  \<open>backoffTimer\<close> is \<open>None\<close>.
\<close>

record SessionEntry =
  sock :: "nat option"
  status :: SessionStatus
  lastQr :: "string option"
  userJid :: "string option"
  reconnecting :: bool
  backoffMs :: "int option"
  backoffTimer :: "nat option"
  lock :: "SessionLock option"

text \<open>
  A connector socket, as far as the session manager sees it: the credentials it was built
  from, the identity it resolved, whether \<open>logout\<close> was called on it, and the listeners
  attached to its events. The \<open>connection.update\<close> listener closes over the session id and
  the entry object, the \<open>creds.update\<close> listener over the session id.
\<close>

record 'c WASocket =
  auth :: 'c
  user :: "string option"
  loggedOut :: bool
  on_connection_update :: "(string \<times> nat) option"
  on_creds_update :: "string option"

record timeout =
  timer_id :: nat
  timer_session :: string
  timer_entry :: nat
  timer_delay :: int

record interval =
  interval_id :: nat
  interval_key :: string
  interval_token :: string

datatype level = Info | Warn | Error

text \<open>
  The state of one process: the registry \<open>sessions\<close> from session id to entry object, the
  entry objects by address (listeners and timers keep a reference to the object they were
  created with, also after the registry points elsewhere), the sockets, the armed timers,
  the shared store as this process sees it, the values \<open>randomUUID\<close> is going to return,
  and the log.
\<close>

record 'c state =
  sessions :: "string \<rightharpoonup> nat"
  heap :: "nat \<Rightarrow> SessionEntry"
  next_addr :: nat
  socks :: "nat \<rightharpoonup> 'c WASocket"
  next_sock :: nat
  timeouts :: "timeout list"
  intervals :: "interval list"
  next_timer :: nat
  redis :: redis
  uuids :: "nat \<Rightarrow> string"
  uuid_next :: nat
  log :: "(level \<times> string \<times> string) list"

definition blank_entry :: SessionEntry where
  "blank_entry =
     \<lparr> sock = None, status = connecting, lastQr = None, userJid = None, reconnecting = False,
       backoffMs = None, backoffTimer = None, lock = None \<rparr>"

definition initial_state :: "redis \<Rightarrow> (nat \<Rightarrow> string) \<Rightarrow> 'c state" where
  "initial_state r u =
     \<lparr> sessions = Map.empty, heap = (\<lambda>a. blank_entry), next_addr = 0, socks = Map.empty,
       next_sock = 0, timeouts = [], intervals = [], next_timer = 0, redis = r, uuids = u,
       uuid_next = 0, log = [] \<rparr>"

definition logger :: "level \<Rightarrow> string \<Rightarrow> string \<Rightarrow> 'c state \<Rightarrow> 'c state" where
  "logger l msg sid st = st\<lparr>log := log st @ [(l, msg, sid)]\<rparr>"

definition randomUUID :: "'c state \<Rightarrow> string \<times> 'c state" where
  "randomUUID st = (uuids st (uuid_next st), st\<lparr>uuid_next := uuid_next st + 1\<rparr>)"

definition clearInterval :: "nat \<Rightarrow> 'c state \<Rightarrow> 'c state" where
  "clearInterval i st = st\<lparr>intervals := filter (\<lambda>t. interval_id t \<noteq> i) (intervals st)\<rparr>"

definition clearTimeout :: "nat \<Rightarrow> 'c state \<Rightarrow> 'c state" where
  "clearTimeout i st = st\<lparr>timeouts := filter (\<lambda>t. timer_id t \<noteq> i) (timeouts st)\<rparr>"

section \<open>locks.ts\<close>

text \<open>
  The two scripts of \<open>acquireSessionLock\<close> run atomically in the store; \<open>PEXPIRE\<close> with a
  time of 0 deletes the key. \<open>GET\<close> inside a script replies \<open>false\<close> for
  an absent key, which equals no token; on a set it raises and the script is aborted.
\<close>

definition RENEW_LUA :: "redis \<Rightarrow> string \<Rightarrow> string \<Rightarrow> nat \<Rightarrow> error + int \<times> redis" where
  "RENEW_LUA r k tok ttl =
     (case map_of r k of
        None \<Rightarrow> Inr (0, r)
      | Some (RSet m) \<Rightarrow> Inl WRONGTYPE
      | Some (RString v t) \<Rightarrow>
          if v = tok
          then (if ttl = 0 then Inr (1, AList.delete k r)
                else Inr (1, AList.update k (RString v (Some ttl)) r))
          else Inr (0, r))"

definition RELEASE_LUA :: "redis \<Rightarrow> string \<Rightarrow> string \<Rightarrow> error + int \<times> redis" where
  "RELEASE_LUA r k tok =
     (case map_of r k of
        None \<Rightarrow> Inr (0, r)
      | Some (RSet m) \<Rightarrow> Inl WRONGTYPE
      | Some (RString v t) \<Rightarrow> if v = tok then Inr (1, AList.delete k r) else Inr (0, r))"

definition lock_key :: "string \<Rightarrow> string" where
  "lock_key sessionId = ''lock:wa:'' @ sessionId"

text \<open>
  \<open>acquireSessionLock\<close>: one \<open>SET key token PX ttl NX\<close>. A rejected command raises; a reply
  other than \<open>OK\<close> returns null; on \<open>OK\<close> the renew interval is armed and the lock returned.
\<close>

definition acquireSessionLock ::
  "config \<Rightarrow> string \<Rightarrow> 'c state \<Rightarrow> (error + SessionLock option) \<times> 'c state" where
  "acquireSessionLock cfg sessionId st =
     (let k = lock_key sessionId;
          (tok, st1) = randomUUID st
      in case redis_set_px_nx (redis st1) k tok (LOCK_TTL_MS cfg) of
           Inl e \<Rightarrow> (Inl e, st1)
         | Inr (ok, r) \<Rightarrow>
             if \<not> ok then (Inr None, st1)
             else (let i = next_timer st1;
                       st2 = st1\<lparr>redis := r,
                                intervals := intervals st1 @
                                  [\<lparr>interval_id = i, interval_key = k, interval_token = tok\<rparr>],
                                next_timer := i + 1\<rparr>
                   in (Inr (Some \<lparr>key = k, token = tok, renewTimer = i\<rparr>), st2)))"

text \<open>
  One tick of the renew interval of a lock: the script result 0 stops the interval, a
  raised error is dropped and the interval stays armed.
\<close>

definition renew :: "config \<Rightarrow> SessionLock \<Rightarrow> 'c state \<Rightarrow> 'c state" where
  "renew cfg l st =
     (case RENEW_LUA (redis st) (key l) (token l) (LOCK_TTL_MS cfg) of
        Inl e \<Rightarrow> st
      | Inr (res, r) \<Rightarrow>
          (let st1 = st\<lparr>redis := r\<rparr>
           in if res = 0 then clearInterval (renewTimer l) st1 else st1))"

definition release :: "SessionLock \<Rightarrow> 'c state \<Rightarrow> 'c state" where
  "release l st =
     (let st1 = clearInterval (renewTimer l) st
      in case RELEASE_LUA (redis st1) (key l) (token l) of
           Inl e \<Rightarrow> st1
         | Inr (res, r) \<Rightarrow> st1\<lparr>redis := r\<rparr>)"


section \<open>waAuthRedis.ts\<close>

text \<open>
  The connector library supplies the credential type \<open>'c\<close>, fresh credentials, and the JSON
  codec (with its buffer reviver and replacer); \<open>JSON_parse\<close> is \<open>None\<close> where the parser
  throws.
\<close>

record 'c baileys =
  initAuthCreds :: 'c
  JSON_parse :: "string \<Rightarrow> 'c option"
  JSON_stringify :: "'c \<Rightarrow> string"

definition kCreds :: "string \<Rightarrow> string" where
  "kCreds sessionId = ''baileys:'' @ sessionId @ '':creds''"

definition keyOf :: "string \<Rightarrow> string \<Rightarrow> string \<Rightarrow> string" where
  "keyOf sessionId type ident = ''baileys:'' @ sessionId @ '':'' @ type @ '':'' @ ident"

text \<open>
  The credential load at the head of \<open>useRedisAuth\<close>. The reply of \<open>GET\<close> is tested for
  truth, so an empty string takes the branch of an absent key. The warning goes to the
  optional logger, \<open>lg\<close> telling whether one was passed.
\<close>

definition useRedisAuth ::
  "'c baileys \<Rightarrow> string \<Rightarrow> bool \<Rightarrow> 'c state \<Rightarrow> (error + 'c) \<times> 'c state" where
  "useRedisAuth ext sessionId lg st =
     (case redis_get (redis st) (kCreds sessionId) of
        Inl e \<Rightarrow> (Inl e, st)
      | Inr savedCreds \<Rightarrow>
          (case savedCreds of
             Some s \<Rightarrow>
               if s \<noteq> []
               then (case JSON_parse ext s of
                       Some c \<Rightarrow> (Inr c, st)
                     | None \<Rightarrow>
                         (Inr (initAuthCreds ext),
                          if lg
                          then logger Warn ''Failed to parse creds JSON; reinitializing creds''
                                 sessionId st
                          else st))
               else (Inr (initAuthCreds ext), st)
           | None \<Rightarrow> (Inr (initAuthCreds ext), st)))"

definition saveCreds :: "'c baileys \<Rightarrow> string \<Rightarrow> 'c \<Rightarrow> 'c state \<Rightarrow> 'c state" where
  "saveCreds ext sessionId creds st =
     st\<lparr>redis := redis_set (redis st) (kCreds sessionId) (JSON_stringify ext creds)\<rparr>"

definition tokenKey :: "string \<Rightarrow> string" where
  "tokenKey t = ''token:'' @ t"

definition sessSetKey :: "string \<Rightarrow> string" where
  "sessSetKey sid = ''sess:'' @ sid @ '':tokens''"

text \<open>
  \<open>deleteRedisAuth\<close> queues \<open>DEL\<close> commands on a pipeline while it reads the token set and
  scans the session's keys, and executes the pipeline at the end. The pipeline is the list
  of the queued commands, each with its keys.
\<close>

function deleteRedisAuth_scan ::
  "redis \<Rightarrow> string \<Rightarrow> nat \<Rightarrow> string list list \<Rightarrow> error + string list list" where
  "deleteRedisAuth_scan r pattern cursor p =
     (case redis_scan r cursor pattern 200 of
        Inl e \<Rightarrow> Inl e
      | Inr (next, keys) \<Rightarrow>
          (let p1 = (if keys \<noteq> [] then p @ [keys] else p)
           in if next \<noteq> 0 then deleteRedisAuth_scan r pattern next p1 else Inr p1))"
  by pat_completeness auto
termination
  by (relation "measure (\<lambda>(r, pattern, cursor, p). length r - cursor)")
     (auto simp: redis_scan_def split: if_splits)

definition pipeline_exec :: "redis \<Rightarrow> string list list \<Rightarrow> redis" where
  "pipeline_exec r p = foldl redis_del r p"

definition deleteRedisAuth :: "string \<Rightarrow> redis \<Rightarrow> error + redis" where
  "deleteRedisAuth sessionId r =
     (let baileysPattern = ''baileys:'' @ sessionId @ '':*''
      in case redis_smembers r (sessSetKey sessionId) of
           Inl e \<Rightarrow> Inl e
         | Inr tokens \<Rightarrow>
             (let p0 = (if tokens \<noteq> [] then [map tokenKey tokens] else []);
                  p1 = p0 @ [[sessSetKey sessionId]]
              in case deleteRedisAuth_scan r baileysPattern 0 p1 of
                   Inl e \<Rightarrow> Inl e
                 | Inr p2 \<Rightarrow> Inr (pipeline_exec r p2)))"


section \<open>waSessions.ts\<close>

definition DisconnectReason_loggedOut :: int where
  "DisconnectReason_loggedOut = 401"

definition DisconnectReason_connectionReplaced :: int where
  "DisconnectReason_connectionReplaced = 440"

definition update_entry :: "nat \<Rightarrow> (SessionEntry \<Rightarrow> SessionEntry) \<Rightarrow> 'c state \<Rightarrow> 'c state" where
  "update_entry a f st = st\<lparr>heap := (heap st)(a := f (heap st a))\<rparr>"

text \<open>\<open>sessions[sessionId] = e\<close> for a newly built object \<open>e\<close>.\<close>

definition store_entry :: "string \<Rightarrow> SessionEntry \<Rightarrow> 'c state \<Rightarrow> 'c state" where
  "store_entry sessionId e st =
     st\<lparr>heap := (heap st)(next_addr st := e),
        sessions := (sessions st)(sessionId \<mapsto> next_addr st),
        next_addr := next_addr st + 1\<rparr>"

definition resetBackoff :: "config \<Rightarrow> nat \<Rightarrow> 'c state \<Rightarrow> 'c state" where
  "resetBackoff cfg s st =
     (let st1 = update_entry s (\<lambda>e. e\<lparr>backoffMs := Some (RECONNECT_MIN cfg)\<rparr>) st;
          st2 = (case backoffTimer (heap st1 s) of
                   Some t \<Rightarrow> update_entry s (\<lambda>e. e\<lparr>backoffTimer := None\<rparr>) (clearTimeout t st1)
                 | None \<Rightarrow> st1)
      in update_entry s (\<lambda>e. e\<lparr>reconnecting := False\<rparr>) st2)"

text \<open>
  \<open>scheduleReconnect\<close>. The stored delay is tested for truth, so 0 counts as unset. The
  armed timer keeps the entry object \<open>s\<close> it was created for; its callback is
  \<open>reconnect_timer_fired\<close> below. The \<open>reason\<close> argument is only logged and is left out.
\<close>

definition scheduleReconnect :: "config \<Rightarrow> string \<Rightarrow> 'c state \<Rightarrow> 'c state" where
  "scheduleReconnect cfg sessionId st =
     (case sessions st sessionId of
        None \<Rightarrow> st
      | Some s \<Rightarrow>
          if reconnecting (heap st s) then st
          else (let st1 = update_entry s (\<lambda>e. e\<lparr>reconnecting := True\<rparr>) st;
                    b = (case backoffMs (heap st1 s) of
                           Some b \<Rightarrow> if b \<noteq> 0 then b * 2 else RECONNECT_MIN cfg
                         | None \<Rightarrow> RECONNECT_MIN cfg);
                    delay = min b (RECONNECT_MAX cfg);
                    st2 = update_entry s (\<lambda>e. e\<lparr>backoffMs := Some delay\<rparr>) st1;
                    st3 = logger Warn ''scheduleReconnect'' sessionId st2;
                    t = next_timer st3
                in update_entry s (\<lambda>e. e\<lparr>backoffTimer := Some t\<rparr>)
                     (st3\<lparr>timeouts := timeouts st3 @
                            [\<lparr>timer_id = t, timer_session = sessionId, timer_entry = s,
                              timer_delay = delay\<rparr>],
                          next_timer := t + 1\<rparr>)))"

definition removeAllListeners :: "nat \<Rightarrow> 'c state \<Rightarrow> 'c state" where
  "removeAllListeners x st =
     (case socks st x of
        None \<Rightarrow> st
      | Some s \<Rightarrow>
          st\<lparr>socks := (socks st)(x \<mapsto> s\<lparr>on_connection_update := None, on_creds_update := None\<rparr>)\<rparr>)"

text \<open>
  \<open>createSession\<close>, in the stages of the source. First the lock: it is acquired when the
  registry has no entry for the id or the entry has no lock, and the entry is then stored
  as a new object carrying the lock.
\<close>

definition createSession_lock ::
  "config \<Rightarrow> string \<Rightarrow> 'c state \<Rightarrow> (error + unit) \<times> 'c state" where
  "createSession_lock cfg sessionId st =
     (let existing = sessions st sessionId
      in if (case existing of Some a \<Rightarrow> lock (heap st a) = None | None \<Rightarrow> True)
         then (case acquireSessionLock cfg sessionId st of
                 (Inl e, st1) \<Rightarrow> (Inl e, st1)
               | (Inr None, st1) \<Rightarrow> (Inl (Locked sessionId), st1)
               | (Inr (Some l), st1) \<Rightarrow>
                   (Inr (),
                    store_entry sessionId
                      ((case existing of Some a \<Rightarrow> heap st1 a | None \<Rightarrow> blank_entry)
                         \<lparr>lock := Some l\<rparr>) st1))
         else (Inr (), st))"

text \<open>
  With \<open>force\<close> and an old socket, the old socket's listeners are removed and the socket of
  the registry's current entry is set to null. Assigning through a missing registry entry
  is a \<open>TypeError\<close>.
\<close>

definition createSession_detach ::
  "string \<Rightarrow> bool \<Rightarrow> nat option \<Rightarrow> 'c state \<Rightarrow> (error + unit) \<times> 'c state" where
  "createSession_detach sessionId force existing st =
     (case existing of
        None \<Rightarrow> (Inr (), st)
      | Some a \<Rightarrow>
          (case sock (heap st a) of
             None \<Rightarrow> (Inr (), st)
           | Some x \<Rightarrow>
               if force
               then (let st1 = removeAllListeners x st
                     in case sessions st1 sessionId of
                          None \<Rightarrow> (Inl (TypeError ''sessions[sessionId] is undefined''), st1)
                        | Some cur \<Rightarrow> (Inr (), update_entry cur (\<lambda>e. e\<lparr>sock := None\<rparr>) st1))
               else (Inr (), st)))"

text \<open>
  \<open>makeWASocket\<close> and what follows it: the new entry object is a copy of the registry's
  current entry (of the empty object if there is none) with the new socket and status
  \<open>connecting\<close>; it replaces the registry's entry, and the two listeners are attached.
\<close>

definition createSession_connect :: "string \<Rightarrow> 'c \<Rightarrow> 'c state \<Rightarrow> nat \<times> 'c state" where
  "createSession_connect sessionId creds st =
     (let x = next_sock st;
          a = next_addr st;
          entry = (case sessions st sessionId of Some cur \<Rightarrow> heap st cur | None \<Rightarrow> blank_entry)
                    \<lparr>sock := Some x, status := connecting\<rparr>;
          st1 = store_entry sessionId entry st
      in (a, st1\<lparr>socks := (socks st1)(x \<mapsto>
                    \<lparr>auth = creds, user = None, loggedOut = False,
                      on_connection_update = Some (sessionId, a),
                      on_creds_update = Some sessionId\<rparr>),
                  next_sock := x + 1\<rparr>))"

definition createSession ::
  "'c baileys \<Rightarrow> config \<Rightarrow> string \<Rightarrow> bool \<Rightarrow> 'c state \<Rightarrow> (error + nat) \<times> 'c state" where
  "createSession ext cfg sessionId force st =
     (let existing = sessions st sessionId
      in case (case existing of
                 Some a \<Rightarrow>
                   if sock (heap st a) \<noteq> None \<and> status (heap st a) \<noteq> close \<and> \<not> force
                   then Some a else None
               | None \<Rightarrow> None) of
           Some a \<Rightarrow> (Inr a, st)
         | None \<Rightarrow>
             (case createSession_lock cfg sessionId st of
                (Inl e, st1) \<Rightarrow> (Inl e, st1)
              | (Inr u, st1) \<Rightarrow>
                  (case createSession_detach sessionId force existing st1 of
                     (Inl e, st2) \<Rightarrow> (Inl e, st2)
                   | (Inr u, st2) \<Rightarrow>
                       (case useRedisAuth ext sessionId True st2 of
                          (Inl e, st3) \<Rightarrow> (Inl e, st3)
                        | (Inr creds, st3) \<Rightarrow>
                            (case createSession_connect sessionId creds st3 of
                               (a, st4) \<Rightarrow> (Inr a, st4))))))"

definition getSession ::
  "'c baileys \<Rightarrow> config \<Rightarrow> string \<Rightarrow> 'c state \<Rightarrow> nat option \<times> 'c state" where
  "getSession ext cfg sessionId st =
     (case sessions st sessionId of
        Some s \<Rightarrow> (Some s, st)
      | None \<Rightarrow>
          (case createSession ext cfg sessionId False st of
             (Inr restored, st1) \<Rightarrow> (Some restored, st1)
           | (Inl e, st1) \<Rightarrow> (None, logger Error ''lazy restore failed'' sessionId st1)))"

definition getLastQR :: "string \<Rightarrow> 'c state \<Rightarrow> string option" where
  "getLastQR sessionId st =
     (case sessions st sessionId of Some s \<Rightarrow> lastQr (heap st s) | None \<Rightarrow> None)"

text \<open>\<open>sock.logout()\<close> on the connector; a failure of the call is ignored by the caller.\<close>

definition sock_logout :: "nat \<Rightarrow> 'c state \<Rightarrow> 'c state" where
  "sock_logout x st =
     (case socks st x of
        None \<Rightarrow> st
      | Some s \<Rightarrow> st\<lparr>socks := (socks st)(x \<mapsto> s\<lparr>loggedOut := True\<rparr>)\<rparr>)"

definition wipe :: "string \<Rightarrow> 'c state \<Rightarrow> (error + unit) \<times> 'c state" where
  "wipe sessionId st =
     (case deleteRedisAuth sessionId (redis st) of
        Inl e \<Rightarrow> (Inl e, st)
      | Inr r \<Rightarrow> (Inr (), st\<lparr>redis := r\<rparr>))"

definition logoutSession ::
  "'c baileys \<Rightarrow> config \<Rightarrow> string \<Rightarrow> 'c state \<Rightarrow> (error + unit) \<times> 'c state" where
  "logoutSession ext cfg sessionId st =
     (case getSession ext cfg sessionId st of
        (None, st1) \<Rightarrow> wipe sessionId st1
      | (Some s, st1) \<Rightarrow>
          (let st2 = (case backoffTimer (heap st1 s) of
                        Some t \<Rightarrow> clearTimeout t st1 | None \<Rightarrow> st1);
               st3 = update_entry s (\<lambda>e. e\<lparr>reconnecting := False\<rparr>) st2;
               st4 = (case sock (heap st3 s) of
                        Some x \<Rightarrow> sock_logout x (removeAllListeners x st3) | None \<Rightarrow> st3);
               st5 = (case lock (heap st4 s) of Some l \<Rightarrow> release l st4 | None \<Rightarrow> st4);
               st6 = st5\<lparr>sessions := (sessions st5)(sessionId := None)\<rparr>
           in wipe sessionId st6))"

text \<open>
  The events of a socket. \<open>update\<close> is the payload of \<open>connection.update\<close>; the disconnect
  error carries an optional \<open>output.statusCode\<close>, an optional \<open>code\<close> and a message.
\<close>

record disconnect =
  output_statusCode :: "int option"
  code :: "int option"
  message :: "string option"

record update =
  connection :: "SessionStatus option"
  lastDisconnect :: "disconnect option"
  qr :: "string option"

definition disconnect_code :: "update \<Rightarrow> int option" where
  "disconnect_code u =
     (case lastDisconnect u of
        None \<Rightarrow> None
      | Some boom \<Rightarrow>
          (case output_statusCode boom of Some c \<Rightarrow> Some c | None \<Rightarrow> code boom))"

text \<open>
  The \<open>connection.update\<close> listener that \<open>createSession\<close> attached for session \<open>sessionId\<close>,
  entry object \<open>entry\<close> and socket \<open>x\<close>. \<open>void logoutSession(...)\<close> runs the logout to its
  end; its result is dropped.
\<close>

definition connection_update ::
  "'c baileys \<Rightarrow> config \<Rightarrow> string \<Rightarrow> nat \<Rightarrow> nat \<Rightarrow> update \<Rightarrow> 'c state \<Rightarrow> 'c state" where
  "connection_update ext cfg sessionId entry x u st =
     (let st1 = (case qr u of
                   Some q \<Rightarrow>
                     if q \<noteq> [] \<and> status (heap st entry) \<noteq> open' \<and> lastQr (heap st entry) \<noteq> Some q
                     then update_entry entry (\<lambda>e. e\<lparr>lastQr := Some q\<rparr>) st else st
                 | None \<Rightarrow> st)
      in if connection u = Some open'
         then (let jid = (case socks st1 x of Some s \<Rightarrow> user s | None \<Rightarrow> None);
                   st2 = update_entry entry
                           (\<lambda>e. e\<lparr>status := open', userJid := jid, lastQr := None\<rparr>) st1
               in logger Info ''connected'' sessionId (resetBackoff cfg entry st2))
         else if connection u = Some close
         then (let st2 = update_entry entry (\<lambda>e. e\<lparr>status := close, lastQr := None\<rparr>) st1;
                   c = disconnect_code u;
                   st3 = logger Warn ''connection closed'' sessionId st2
               in if c = Some DisconnectReason_loggedOut
                     \<or> c = Some DisconnectReason_connectionReplaced
                  then snd (logoutSession ext cfg sessionId st3)
                  else scheduleReconnect cfg sessionId st3)
         else st1)"

text \<open>
  The \<open>creds.update\<close> listener saves the credentials as the connector now holds them; the
  write cannot fail on this store, so its error branch, which only logs, is never taken.
\<close>

definition creds_update :: "'c baileys \<Rightarrow> string \<Rightarrow> 'c \<Rightarrow> 'c state \<Rightarrow> 'c state" where
  "creds_update ext sessionId creds st = saveCreds ext sessionId creds st"

text \<open>Delivery of an event to a socket runs the listener attached to it, if any.\<close>

definition emit_connection_update ::
  "'c baileys \<Rightarrow> config \<Rightarrow> nat \<Rightarrow> update \<Rightarrow> 'c state \<Rightarrow> 'c state" where
  "emit_connection_update ext cfg x u st =
     (case socks st x of
        None \<Rightarrow> st
      | Some s \<Rightarrow>
          (case on_connection_update s of
             None \<Rightarrow> st
           | Some (sessionId, entry) \<Rightarrow> connection_update ext cfg sessionId entry x u st))"

definition emit_creds_update :: "'c baileys \<Rightarrow> nat \<Rightarrow> 'c \<Rightarrow> 'c state \<Rightarrow> 'c state" where
  "emit_creds_update ext x creds st =
     (case socks st x of
        None \<Rightarrow> st
      | Some s \<Rightarrow>
          (case on_creds_update s of
             None \<Rightarrow> st
           | Some sessionId \<Rightarrow> creds_update ext sessionId creds st))"

text \<open>
  The callback of the timer armed by \<open>scheduleReconnect\<close>, for the entry object \<open>s\<close> the
  timer was created with.
\<close>

definition reconnect_timer_fired ::
  "'c baileys \<Rightarrow> config \<Rightarrow> string \<Rightarrow> nat \<Rightarrow> 'c state \<Rightarrow> 'c state" where
  "reconnect_timer_fired ext cfg sessionId s st =
     (let st1 = update_entry s (\<lambda>e. e\<lparr>backoffTimer := None\<rparr>) st
      in case createSession ext cfg sessionId True st1 of
           (Inr a, st2) \<Rightarrow> st2
         | (Inl e, st2) \<Rightarrow>
             scheduleReconnect cfg sessionId
               (logger Error ''reconnect failed'' sessionId
                  (update_entry s (\<lambda>e. e\<lparr>reconnecting := False\<rparr>) st2)))"

definition fire_timeout :: "'c baileys \<Rightarrow> config \<Rightarrow> nat \<Rightarrow> 'c state \<Rightarrow> 'c state" where
  "fire_timeout ext cfg t st =
     (case find (\<lambda>tm. timer_id tm = t) (timeouts st) of
        None \<Rightarrow> st
      | Some tm \<Rightarrow>
          reconnect_timer_fired ext cfg (timer_session tm) (timer_entry tm) (clearTimeout t st))"

definition fire_interval :: "config \<Rightarrow> nat \<Rightarrow> 'c state \<Rightarrow> 'c state" where
  "fire_interval cfg i st =
     (case find (\<lambda>iv. interval_id iv = i) (intervals st) of
        None \<Rightarrow> st
      | Some iv \<Rightarrow>
          renew cfg \<lparr>key = interval_key iv, token = interval_token iv, renewTimer = i\<rparr> st)"


subsection \<open>Restore scanner\<close>

function scanKeys_loop ::
  "redis \<Rightarrow> nat \<Rightarrow> string \<Rightarrow> nat \<Rightarrow> string list \<Rightarrow> error + string list" where
  "scanKeys_loop r n pattern cursor out =
     (case redis_scan r cursor pattern n of
        Inl e \<Rightarrow> Inl e
      | Inr (next, keys) \<Rightarrow>
          if next \<noteq> 0 then scanKeys_loop r n pattern next (out @ keys) else Inr (out @ keys))"
  by pat_completeness auto
termination
  by (relation "measure (\<lambda>(r, n, pattern, cursor, out). length r - cursor)")
     (auto simp: redis_scan_def split: if_splits)

definition scanKeys :: "config \<Rightarrow> string \<Rightarrow> redis \<Rightarrow> error + string list" where
  "scanKeys cfg pattern r = scanKeys_loop r (SCAN_COUNT cfg) pattern 0 []"

text \<open>A JavaScript \<open>Set\<close> of strings in insertion order.\<close>

definition set_add :: "string \<Rightarrow> string list \<Rightarrow> string list" where
  "set_add x xs = (if x \<in> set xs then xs else xs @ [x])"

fun collect_ids :: "string list \<Rightarrow> string list \<Rightarrow> string list" where
  "collect_ids ids [] = ids"
| "collect_ids ids (k # ks) =
     collect_ids (case extractIdFromKey k of
                    Some g \<Rightarrow> if g \<noteq> [] then set_add g ids else ids
                  | None \<Rightarrow> ids) ks"

fun collect_locked :: "string list \<Rightarrow> string list \<Rightarrow> string list" where
  "collect_locked locked [] = locked"
| "collect_locked locked (k # ks) =
     collect_locked (case re_lock_wa k of Some g \<Rightarrow> set_add g locked | None \<Rightarrow> locked) ks"

definition is_423 :: "error \<Rightarrow> bool" where
  "is_423 e = (case e of Locked s \<Rightarrow> True | ReplyError m \<Rightarrow> False | TypeError m \<Rightarrow> False)"

text \<open>
  The attempts for one candidate. Between two attempts the process sleeps for
  \<open>RETRY_DELAY_MS\<close>; \<open>idle ms r\<close> is the shared store as found after a sleep of \<open>ms\<close> that
  began with store \<open>r\<close> (other owners release or acquire, leases expire). The result tells
  whether the candidate was restored.
\<close>

function restore_attempts ::
  "'c baileys \<Rightarrow> config \<Rightarrow> (nat \<Rightarrow> redis \<Rightarrow> redis) \<Rightarrow> string \<Rightarrow> int \<Rightarrow>
     'c state \<times> string list \<Rightarrow> bool \<times> 'c state \<times> string list" where
  "restore_attempts ext cfg idle ident attempt (st, restored) =
     (if attempt \<le> RETRIES cfg
      then (case createSession ext cfg ident False st of
              (Inr a, st1) \<Rightarrow> (True, st1, restored @ [ident])
            | (Inl e, st1) \<Rightarrow>
                if is_423 e
                then (if attempt < RETRIES cfg
                      then restore_attempts ext cfg idle ident (attempt + 1)
                             (st1\<lparr>redis := idle (RETRY_DELAY_MS cfg) (redis st1)\<rparr>, restored)
                      else (False,
                            logger Warn ''auto-restore: locked, skipped after retries'' ident st1,
                            restored))
                else (False, logger Error ''auto-restore failed'' ident st1, restored))
      else (False, st, restored))"
  by pat_completeness auto
termination
  by (relation "measure (\<lambda>(ext, cfg, idle, ident, attempt, s). nat (RETRIES cfg + 1 - attempt))")
     auto

fun restore_each ::
  "'c baileys \<Rightarrow> config \<Rightarrow> (nat \<Rightarrow> redis \<Rightarrow> redis) \<Rightarrow> string list \<Rightarrow> string list \<Rightarrow>
     'c state \<times> string list \<Rightarrow> 'c state \<times> string list" where
  "restore_each ext cfg idle locked [] (st, restored) = (st, restored)"
| "restore_each ext cfg idle locked (ident # ids) (st, restored) =
     (if ident \<in> set locked
      then restore_each ext cfg idle locked ids
             (logger Warn ''auto-restore: skip karena locked'' ident st, restored)
      else (case restore_attempts ext cfg idle ident 0 (st, restored) of
              (ok, st1, restored1) \<Rightarrow>
                restore_each ext cfg idle locked ids
                  (if \<not> ok then logger Info ''auto-restore: not restored'' ident st1 else st1,
                   restored1)))"

text \<open>
  The two enumerations at the head of \<open>restoreAllSessionsFromRedis\<close>: the candidate ids
  read from the token sets and the credential blobs, and the ids read from the lock keys.
\<close>

definition candidate_ids :: "config \<Rightarrow> redis \<Rightarrow> error + string list" where
  "candidate_ids cfg r =
     (case scanKeys cfg ''sess:*:tokens'' r of
        Inl e \<Rightarrow> Inl e
      | Inr keys1 \<Rightarrow>
          (case scanKeys cfg ''baileys:*:creds'' r of
             Inl e \<Rightarrow> Inl e
           | Inr keys2 \<Rightarrow> Inr (collect_ids (collect_ids [] keys1) keys2)))"

definition locked_ids :: "config \<Rightarrow> redis \<Rightarrow> error + string list" where
  "locked_ids cfg r =
     (case scanKeys cfg ''lock:wa:*'' r of
        Inl e \<Rightarrow> Inl e
      | Inr lockedKeys \<Rightarrow> Inr (collect_locked [] lockedKeys))"

definition restoreAllSessionsFromRedis ::
  "'c baileys \<Rightarrow> config \<Rightarrow> (nat \<Rightarrow> redis \<Rightarrow> redis) \<Rightarrow> 'c state \<Rightarrow>
     (error + string list) \<times> 'c state" where
  "restoreAllSessionsFromRedis ext cfg idle st =
     (case candidate_ids cfg (redis st) of
        Inl e \<Rightarrow> (Inl e, st)
      | Inr ids \<Rightarrow>
          (case locked_ids cfg (redis st) of
             Inl e \<Rightarrow> (Inl e, st)
           | Inr locked \<Rightarrow>
               (case restore_each ext cfg idle locked ids (st, []) of
                  (st1, restored) \<Rightarrow>
                    (Inr restored, logger Info ''auto-restore complete'' [] st1))))"

subsection \<open>The process as a transition system\<close>

text \<open>
  What can happen to a process: a call of one of the exported operations, an event of a
  connector socket, a timer or a renew interval coming due, the connector resolving the
  identity of a socket, and a change of the shared store made elsewhere. In \<open>step\<close> each of
  them runs to its end before the next begins; for a call of an asynchronous operation
  that is the execution in which nothing else happens while the call waits. Calls that
  overlap with other calls and events are the subject of the next subsection.
\<close>

datatype 'c op =
    CreateSession string bool
  | GetSession string
  | LogoutSession string
  | RestoreAll
  | ConnectionUpdate nat update
  | CredsUpdate nat 'c
  | TimeoutFires nat
  | IntervalFires nat
  | ConnectorLogin nat string
  | StoreChanges redis

definition connector_login :: "nat \<Rightarrow> string \<Rightarrow> 'c state \<Rightarrow> 'c state" where
  "connector_login x jid st =
     (case socks st x of
        None \<Rightarrow> st
      | Some s \<Rightarrow> st\<lparr>socks := (socks st)(x \<mapsto> s\<lparr>user := Some jid\<rparr>)\<rparr>)"

fun step ::
  "'c baileys \<Rightarrow> config \<Rightarrow> (nat \<Rightarrow> redis \<Rightarrow> redis) \<Rightarrow> 'c op \<Rightarrow> 'c state \<Rightarrow> 'c state" where
  "step ext cfg idle (CreateSession sessionId force) st = snd (createSession ext cfg sessionId force st)"
| "step ext cfg idle (GetSession sessionId) st = snd (getSession ext cfg sessionId st)"
| "step ext cfg idle (LogoutSession sessionId) st = snd (logoutSession ext cfg sessionId st)"
| "step ext cfg idle RestoreAll st = snd (restoreAllSessionsFromRedis ext cfg idle st)"
| "step ext cfg idle (ConnectionUpdate x u) st = emit_connection_update ext cfg x u st"
| "step ext cfg idle (CredsUpdate x creds) st = emit_creds_update ext x creds st"
| "step ext cfg idle (TimeoutFires t) st = fire_timeout ext cfg t st"
| "step ext cfg idle (IntervalFires i) st = fire_interval cfg i st"
| "step ext cfg idle (ConnectorLogin x jid) st = connector_login x jid st"
| "step ext cfg idle (StoreChanges r) st = st\<lparr>redis := r\<rparr>"

fun run ::
  "'c baileys \<Rightarrow> config \<Rightarrow> (nat \<Rightarrow> redis \<Rightarrow> redis) \<Rightarrow> 'c op list \<Rightarrow> 'c state \<Rightarrow> 'c state" where
  "run ext cfg idle [] st = st"
| "run ext cfg idle (o1 # os) st = run ext cfg idle os (step ext cfg idle o1 st)"

subsection \<open>Calls that are suspended\<close>

text \<open>
  \<open>createSession\<close>, \<open>getSession\<close> and \<open>logoutSession\<close> are asynchronous: at each of their
  \<open>await\<close>s the call is suspended, other calls and events take their turn, and the call goes
  on later with the value it waited for. A pending call is a call suspended at an \<open>await\<close>, named by
  the function and the line of the \<open>await\<close>, with that value and the local variables still
  in use. An awaited operation of the lock, of the credential store or of the connector
  takes effect when it is called, at the head of the wait; an awaited call of one of the
  three functions runs to its own first \<open>await\<close>, and the value it returns in the end is
  handed to the caller, which is suspended until then. The caller of \<open>getSession\<close> is the
  code outside the module or \<open>logoutSession\<close> (line 226); the caller of \<open>createSession\<close> is
  the code outside, \<open>getSession\<close> (line 80), or the callback of a reconnect timer with its
  entry object (line 67).
\<close>

datatype getSession_caller = Api_getSession | In_logoutSession

datatype createSession_caller =
    Api_createSession
  | In_getSession getSession_caller
  | In_reconnect nat

datatype 'c pending =
    CreateSession_107 string bool "nat option" "error + SessionLock option" createSession_caller
  | CreateSession_132 string "error + 'c" createSession_caller
  | GetSession_80 string "error + nat" getSession_caller
  | Reconnect_67 string nat "error + nat"
  | LogoutSession_226 string "nat option"
  | LogoutSession_228 "error + unit"
  | LogoutSession_247 string nat
  | LogoutSession_252 string nat
  | LogoutSession_259 "error + unit"

text \<open>
  \<open>createSession\<close> returning the entry or raising the error \<open>v\<close> to its caller; the code
  outside the module is not followed further.
\<close>

definition createSession_return ::
  "string \<Rightarrow> createSession_caller \<Rightarrow> error + nat \<Rightarrow> 'c state \<Rightarrow> 'c pending option \<times> 'c state" where
  "createSession_return sessionId k v st =
     (case k of
        Api_createSession \<Rightarrow> (None, st)
      | In_getSession g \<Rightarrow> (Some (GetSession_80 sessionId v g), st)
      | In_reconnect s \<Rightarrow> (Some (Reconnect_67 sessionId s v), st))"

text \<open>Lines 119 to 132: the old listeners are removed and the credential load is called.\<close>

definition createSession_auth ::
  "'c baileys \<Rightarrow> string \<Rightarrow> bool \<Rightarrow> nat option \<Rightarrow> createSession_caller \<Rightarrow> 'c state \<Rightarrow>
     'c pending option \<times> 'c state" where
  "createSession_auth ext sessionId force existing k st =
     (case createSession_detach sessionId force existing st of
        (Inl e, st2) \<Rightarrow> createSession_return sessionId k (Inl e) st2
      | (Inr u, st2) \<Rightarrow>
          (case useRedisAuth ext sessionId True st2 of
             (r, st3) \<Rightarrow> (Some (CreateSession_132 sessionId r k), st3)))"

text \<open>
  Lines 102 to 107: the early return, the test for a lock on the entry found at line 102,
  and the call of \<open>acquireSessionLock\<close> when there is none.
\<close>

definition createSession_begin ::
  "'c baileys \<Rightarrow> config \<Rightarrow> string \<Rightarrow> bool \<Rightarrow> createSession_caller \<Rightarrow> 'c state \<Rightarrow>
     'c pending option \<times> 'c state" where
  "createSession_begin ext cfg sessionId force k st =
     (let existing = sessions st sessionId
      in case (case existing of
                 Some a \<Rightarrow>
                   if sock (heap st a) \<noteq> None \<and> status (heap st a) \<noteq> close \<and> \<not> force
                   then Some a else None
               | None \<Rightarrow> None) of
           Some a \<Rightarrow> createSession_return sessionId k (Inr a) st
         | None \<Rightarrow>
             if (case existing of Some a \<Rightarrow> lock (heap st a) = None | None \<Rightarrow> True)
             then (case acquireSessionLock cfg sessionId st of
                     (r, st1) \<Rightarrow> (Some (CreateSession_107 sessionId force existing r k), st1))
             else createSession_auth ext sessionId force existing k st)"

definition getSession_return ::
  "string \<Rightarrow> getSession_caller \<Rightarrow> nat option \<Rightarrow> 'c state \<Rightarrow> 'c pending option \<times> 'c state" where
  "getSession_return sessionId g v st =
     (case g of
        Api_getSession \<Rightarrow> (None, st)
      | In_logoutSession \<Rightarrow> (Some (LogoutSession_226 sessionId v), st))"

definition getSession_begin ::
  "'c baileys \<Rightarrow> config \<Rightarrow> string \<Rightarrow> getSession_caller \<Rightarrow> 'c state \<Rightarrow>
     'c pending option \<times> 'c state" where
  "getSession_begin ext cfg sessionId g st =
     (case sessions st sessionId of
        Some s \<Rightarrow> getSession_return sessionId g (Some s) st
      | None \<Rightarrow> createSession_begin ext cfg sessionId False (In_getSession g) st)"

definition logoutSession_begin ::
  "'c baileys \<Rightarrow> config \<Rightarrow> string \<Rightarrow> 'c state \<Rightarrow> 'c pending option \<times> 'c state" where
  "logoutSession_begin ext cfg sessionId st = getSession_begin ext cfg sessionId In_logoutSession st"

text \<open>A reconnect timer coming due: its callback calls \<open>createSession\<close> with \<open>force\<close>.\<close>

definition reconnect_begin ::
  "'c baileys \<Rightarrow> config \<Rightarrow> nat \<Rightarrow> 'c state \<Rightarrow> 'c pending option \<times> 'c state" where
  "reconnect_begin ext cfg t st =
     (case find (\<lambda>tm. timer_id tm = t) (timeouts st) of
        None \<Rightarrow> (None, st)
      | Some tm \<Rightarrow>
          createSession_begin ext cfg (timer_session tm) True (In_reconnect (timer_entry tm))
            (update_entry (timer_entry tm) (\<lambda>e. e\<lparr>backoffTimer := None\<rparr>) (clearTimeout t st)))"

text \<open>
  A suspended call goes on, up to its next \<open>await\<close> or to its end: \<open>createSession\<close> after
  the lock (lines 108 to 132) and after the credential load (lines 135 to 208),
  \<open>getSession\<close> after \<open>createSession\<close> (lines 81 to 84), the reconnect callback in its
  \<open>catch\<close> (lines 68 to 70), and \<open>logoutSession\<close> after \<open>getSession\<close> (lines 227 to 247),
  after the connector's logout (line 252), after the release (lines 256 to 259) and after
  the wipe.
\<close>

fun resume :: "'c baileys \<Rightarrow> config \<Rightarrow> 'c pending \<Rightarrow> 'c state \<Rightarrow> 'c pending option \<times> 'c state" where
  "resume ext cfg (CreateSession_107 sessionId force existing r k) st =
     (case r of
        Inl e \<Rightarrow> createSession_return sessionId k (Inl e) st
      | Inr None \<Rightarrow> createSession_return sessionId k (Inl (Locked sessionId)) st
      | Inr (Some l) \<Rightarrow>
          createSession_auth ext sessionId force existing k
            (store_entry sessionId
               ((case existing of Some a \<Rightarrow> heap st a | None \<Rightarrow> blank_entry)\<lparr>lock := Some l\<rparr>)
               st))"
| "resume ext cfg (CreateSession_132 sessionId r k) st =
     (case r of
        Inl e \<Rightarrow> createSession_return sessionId k (Inl e) st
      | Inr creds \<Rightarrow>
          (case createSession_connect sessionId creds st of
             (a, st4) \<Rightarrow> createSession_return sessionId k (Inr a) st4))"
| "resume ext cfg (GetSession_80 sessionId r g) st =
     (case r of
        Inr restored \<Rightarrow> getSession_return sessionId g (Some restored) st
      | Inl e \<Rightarrow>
          getSession_return sessionId g None (logger Error ''lazy restore failed'' sessionId st))"
| "resume ext cfg (Reconnect_67 sessionId s r) st =
     (case r of
        Inr a \<Rightarrow> (None, st)
      | Inl e \<Rightarrow>
          (None,
           scheduleReconnect cfg sessionId
             (logger Error ''reconnect failed'' sessionId
                (update_entry s (\<lambda>e. e\<lparr>reconnecting := False\<rparr>) st))))"
| "resume ext cfg (LogoutSession_226 sessionId v) st =
     (case v of
        None \<Rightarrow> (case wipe sessionId st of (r, st1) \<Rightarrow> (Some (LogoutSession_228 r), st1))
      | Some s \<Rightarrow>
          (let st2 = (case backoffTimer (heap st s) of
                        Some t \<Rightarrow> clearTimeout t st | None \<Rightarrow> st);
               st3 = update_entry s (\<lambda>e. e\<lparr>reconnecting := False\<rparr>) st2;
               st4 = (case sock (heap st3 s) of
                        Some x \<Rightarrow> sock_logout x (removeAllListeners x st3) | None \<Rightarrow> st3)
           in (Some (LogoutSession_247 sessionId s), st4)))"
| "resume ext cfg (LogoutSession_228 r) st = (None, st)"
| "resume ext cfg (LogoutSession_247 sessionId s) st =
     (Some (LogoutSession_252 sessionId s),
      case lock (heap st s) of Some l \<Rightarrow> release l st | None \<Rightarrow> st)"
| "resume ext cfg (LogoutSession_252 sessionId s) st =
     (case wipe sessionId (st\<lparr>sessions := (sessions st)(sessionId := None)\<rparr>) of
        (r, st7) \<Rightarrow> (Some (LogoutSession_259 r), st7))"
| "resume ext cfg (LogoutSession_259 r) st = (None, st)"

text \<open>
  The awaits a suspended call still has before it, counting those of the callers waiting
  for it; and a call going on to its end with nothing else happening in between.
\<close>

fun awaits_left :: "'c pending \<Rightarrow> nat" where
  "awaits_left (CreateSession_107 sessionId force existing r k) =
     (case k of Api_createSession \<Rightarrow> 2 | In_getSession Api_getSession \<Rightarrow> 3
      | In_getSession In_logoutSession \<Rightarrow> 7 | In_reconnect s \<Rightarrow> 3)"
| "awaits_left (CreateSession_132 sessionId r k) =
     (case k of Api_createSession \<Rightarrow> 1 | In_getSession Api_getSession \<Rightarrow> 2
      | In_getSession In_logoutSession \<Rightarrow> 6 | In_reconnect s \<Rightarrow> 2)"
| "awaits_left (GetSession_80 sessionId r g) =
     (case g of Api_getSession \<Rightarrow> 1 | In_logoutSession \<Rightarrow> 5)"
| "awaits_left (Reconnect_67 sessionId s r) = 1"
| "awaits_left (LogoutSession_226 sessionId v) = 4"
| "awaits_left (LogoutSession_228 r) = 1"
| "awaits_left (LogoutSession_247 sessionId s) = 3"
| "awaits_left (LogoutSession_252 sessionId s) = 2"
| "awaits_left (LogoutSession_259 r) = 1"

function complete :: "'c baileys \<Rightarrow> config \<Rightarrow> 'c pending option \<times> 'c state \<Rightarrow> 'c state" where
  "complete ext cfg (None, st) = st"
| "complete ext cfg (Some t, st) = complete ext cfg (resume ext cfg t st)"
  by pat_completeness auto
termination
proof (relation "measure (\<lambda>(ext, cfg, t, st). case t of None \<Rightarrow> 0 | Some u \<Rightarrow> awaits_left u)")
  show "wf (measure (\<lambda>(ext, cfg, t, st). case t of None \<Rightarrow> 0 | Some u \<Rightarrow> awaits_left u))"
    by simp
next
  fix ext :: "'c baileys" and cfg t and st :: "'c state"
  show "((ext, cfg, resume ext cfg t st), ext, cfg, Some t, st)
          \<in> measure (\<lambda>(ext, cfg, t, st). case t of None \<Rightarrow> 0 | Some u \<Rightarrow> awaits_left u)"
    by (cases t)
       (auto simp: createSession_return_def createSession_auth_def getSession_return_def Let_def
          split: sum.splits option.splits prod.splits createSession_caller.splits
            getSession_caller.splits)
qed

text \<open>
  The process with its suspended calls. An event is one of the operations of \<open>step\<close>, run
  to its end, or a call of one of the three functions that may be suspended, a reconnect
  timer coming due, or a pending call going on; a pending call is known by the number it
  was given.
\<close>

datatype 'c event =
    Event "'c op"
  | Call_createSession nat string bool
  | Call_getSession nat string
  | Call_logoutSession nat string
  | Timeout_due nat nat
  | Resume nat

definition suspend ::
  "nat \<Rightarrow> 'c pending option \<times> 'c state \<Rightarrow> (nat \<rightharpoonup> 'c pending) \<Rightarrow> 'c state \<times> (nat \<rightharpoonup> 'c pending)" where
  "suspend n r calls = (snd r, calls(n := fst r))"

fun react ::
  "'c baileys \<Rightarrow> config \<Rightarrow> (nat \<Rightarrow> redis \<Rightarrow> redis) \<Rightarrow> 'c event \<Rightarrow>
     'c state \<times> (nat \<rightharpoonup> 'c pending) \<Rightarrow> 'c state \<times> (nat \<rightharpoonup> 'c pending)" where
  "react ext cfg idle (Event p) (st, calls) = (step ext cfg idle p st, calls)"
| "react ext cfg idle (Call_createSession n sessionId force) (st, calls) =
     suspend n (createSession_begin ext cfg sessionId force Api_createSession st) calls"
| "react ext cfg idle (Call_getSession n sessionId) (st, calls) =
     suspend n (getSession_begin ext cfg sessionId Api_getSession st) calls"
| "react ext cfg idle (Call_logoutSession n sessionId) (st, calls) =
     suspend n (logoutSession_begin ext cfg sessionId st) calls"
| "react ext cfg idle (Timeout_due n t) (st, calls) =
     suspend n (reconnect_begin ext cfg t st) calls"
| "react ext cfg idle (Resume n) (st, calls) =
     (case calls n of
        None \<Rightarrow> (st, calls)
      | Some t \<Rightarrow> suspend n (resume ext cfg t st) calls)"

fun interleave ::
  "'c baileys \<Rightarrow> config \<Rightarrow> (nat \<Rightarrow> redis \<Rightarrow> redis) \<Rightarrow> 'c event list \<Rightarrow>
     'c state \<times> (nat \<rightharpoonup> 'c pending) \<Rightarrow> 'c state \<times> (nat \<rightharpoonup> 'c pending)" where
  "interleave ext cfg idle [] p = p"
| "interleave ext cfg idle (e # es) p = interleave ext cfg idle es (react ext cfg idle e p)"


section \<open>The base62 token generator\<close>

text \<open>
  \<open>genToken\<close> of the token store variant that draws tokens from \<open>[A-Za-z0-9]\<close>. The random
  source is the sequence \<open>rnd\<close> of the bytes that successive \<open>randomBytes\<close> calls return;
  \<open>randomBytes rnd pos k\<close> hands out the next \<open>k\<close> of them. The buffer size
  \<open>Math.ceil(k * 1.6)\<close> is \<open>(8 k + 4) div 5\<close>. The outer loop may run for ever, so it returns
  an option.
\<close>

type_synonym byte = "8 word"

definition ALPHABET62 :: string where
  "ALPHABET62 = ''ABCDEFGHIJKLMNOPQRSTUVWXYZabcdefghijklmnopqrstuvwxyz0123456789''"

definition MASK_6BITS :: byte where
  "MASK_6BITS = 63"

definition randomBytes :: "(nat \<Rightarrow> byte) \<Rightarrow> nat \<Rightarrow> nat \<Rightarrow> byte list \<times> nat" where
  "randomBytes rnd pos k = (map rnd [pos..<pos + k], pos + k)"

definition bufsize :: "nat \<Rightarrow> nat" where
  "bufsize k = (8 * k + 4) div 5"

fun genToken_scan :: "nat \<Rightarrow> byte list \<Rightarrow> string \<Rightarrow> string" where
  "genToken_scan n [] out = out"
| "genToken_scan n (b # buf) out =
     (if length out < n
      then (let v = b AND MASK_6BITS
            in genToken_scan n buf (if v < 62 then out @ [ALPHABET62 ! unat v] else out))
      else out)"

partial_function (option) genToken_loop ::
  "(nat \<Rightarrow> byte) \<Rightarrow> nat \<Rightarrow> nat \<Rightarrow> string \<Rightarrow> string option" where
  "genToken_loop rnd n pos out =
     (if length out < n
      then (case randomBytes rnd pos (bufsize (n - length out)) of
              (buf, pos') \<Rightarrow> genToken_loop rnd n pos' (genToken_scan n buf out))
      else Some out)"

definition genToken :: "(nat \<Rightarrow> byte) \<Rightarrow> nat \<Rightarrow> string option" where
  "genToken rnd n = genToken_loop rnd n 0 []"

text \<open>A byte is accepted when its low six bits index the alphabet.\<close>

definition accepted :: "byte \<Rightarrow> bool" where
  "accepted b = (b AND MASK_6BITS < 62)"


section \<open>The store after a release and after a wipe\<close>

text \<open>
  What \<open>release\<close> and \<open>deleteRedisAuth\<close> leave of a store when their errors are dropped, as
  their callers in the session manager drop them.
\<close>

definition released :: "redis \<Rightarrow> SessionLock \<Rightarrow> redis" where
  "released r l = (case RELEASE_LUA r (key l) (token l) of Inl e \<Rightarrow> r | Inr (res, r') \<Rightarrow> r')"

definition wiped :: "string \<Rightarrow> redis \<Rightarrow> redis" where
  "wiped sid r = (case deleteRedisAuth sid r of Inl e \<Rightarrow> r | Inr r' \<Rightarrow> r')"

text \<open>
  The registry invariant: every entry the registry points to is an allocated object and
  carries a lock.
\<close>

definition registry_locked :: "'c state \<Rightarrow> bool" where
  "registry_locked st =
     (\<forall>sid a. sessions st sid = Some a \<longrightarrow> a < next_addr st \<and> lock (heap st a) \<noteq> None)"





section \<open>Concrete instances\<close>

text \<open>
  A small instance of each parameter, on which the operations can be evaluated: a codec over
  strings that parses exactly the texts opening with a brace, a sequence of UUIDs, a store
  that nobody else touches during a sleep, a byte sequence, and the events of a socket.
\<close>

definition demo_ext :: "string baileys" where
  "demo_ext =
     \<lparr> initAuthCreds = ''{}'',
       JSON_parse = (\<lambda>s. case s of [] \<Rightarrow> None | c # cs \<Rightarrow> if c = CHR ''{'' then Some s else None),
       JSON_stringify = (\<lambda>c. c) \<rparr>"

definition demo_uuids :: "nat \<Rightarrow> string" where
  "demo_uuids n = replicate (Suc n) CHR ''u''"

definition demo_state :: "redis \<Rightarrow> string state" where
  "demo_state r = initial_state r demo_uuids"

definition undisturbed :: "nat \<Rightarrow> redis \<Rightarrow> redis" where
  "undisturbed ms r = r"

definition demo_rnd :: "nat \<Rightarrow> byte" where
  "demo_rnd i = (if even i then 255 else of_nat (i mod 64))"

definition closed_with :: "int \<Rightarrow> update" where
  "closed_with c =
     \<lparr> connection = Some close,
       lastDisconnect = Some \<lparr>output_statusCode = Some c, code = None, message = None\<rparr>,
       qr = None \<rparr>"

definition opened :: update where
  "opened = \<lparr> connection = Some open', lastDisconnect = None, qr = None \<rparr>"


definition half_created :: "string state" where
  "half_created =
     run demo_ext fallback_config undisturbed [CreateSession ''s'' False, StoreChanges []]
       (demo_state [(''baileys:s:creds'', RSet [''x''])])"

text \<open>
  A process that has created session \<open>s\<close> from stored credentials, and a store holding
  everything that belongs to session \<open>a\<close> next to the credentials of session \<open>b\<close>.
\<close>

definition live_session :: "string state" where
  "live_session =
     run demo_ext fallback_config undisturbed [CreateSession ''s'' False]
       (demo_state [(''baileys:s:creds'', RString ''{x}'' None)])"

definition session_a_store :: redis where
  "session_a_store =
     [(''baileys:a:creds'', RString ''{a}'' None),
      (''baileys:a:session:1'', RString ''{k}'' None),
      (''sess:a:tokens'', RSet [''t1'']),
      (''token:t1'', RString ''a'' None),
      (''baileys:b:creds'', RString ''{b}'' None)]"




text \<open>
  A process whose session \<open>s\<close> has lost its connection with a timeout. And what becomes of
  it when \<open>logoutSession\<close> and \<open>createSession\<close> overlap: the logout has called the release of
  the lock (line 252) when \<open>createSession\<close> is called and waits for the credentials (line
  132); then the logout goes on to the wipe, \<open>createSession\<close> goes on to its end, and the
  logout returns.
\<close>

definition closed_session :: "string state" where
  "closed_session =
     run demo_ext fallback_config undisturbed
       [CreateSession ''s'' False, ConnectionUpdate 0 (closed_with 408)]
       (demo_state [(''baileys:s:creds'', RString ''{x}'' None)])"

definition overlapped :: "string state \<times> (nat \<rightharpoonup> string pending)" where
  "overlapped =
     interleave demo_ext fallback_config undisturbed
       [Call_logoutSession 0 ''s'', Resume 0, Resume 0,
        Call_createSession 1 ''s'' False,
        Resume 0, Resume 1, Resume 0]
       (closed_session, Map.empty)"


section \<open>Proof setup\<close>

text \<open>The equations of the three loops are unfolded by hand, one round at a time.\<close>

declare deleteRedisAuth_scan.simps [simp del]
declare scanKeys_loop.simps [simp del]
declare restore_attempts.simps [simp del]

text \<open>The definitions unfolded to evaluate the operations on a concrete state.\<close>

lemmas eval_defs =
  createSession_def createSession_lock_def createSession_detach_def createSession_connect_def
  acquireSessionLock_def randomUUID_def redis_set_px_nx_def useRedisAuth_def redis_get_def
  store_entry_def update_entry_def blank_entry_def lock_key_def kCreds_def
  emit_connection_update_def connection_update_def disconnect_code_def resetBackoff_def
  scheduleReconnect_def logger_def clearTimeout_def clearInterval_def
  DisconnectReason_loggedOut_def DisconnectReason_connectionReplaced_def
  fire_timeout_def reconnect_timer_fired_def removeAllListeners_def
  logoutSession_def getSession_def sock_logout_def release_def RELEASE_LUA_def wipe_def
  deleteRedisAuth_def deleteRedisAuth_scan.simps redis_scan_def redis_smembers_def
  pipeline_exec_def sessSetKey_def tokenKey_def stringmatch_def WRONGTYPE_def
  fallback_config_def demo_state_def initial_state_def demo_uuids_def demo_ext_def
  closed_with_def opened_def undisturbed_def Let_def


lemmas async_defs =
  createSession_begin_def createSession_auth_def createSession_return_def
  getSession_begin_def getSession_return_def logoutSession_begin_def reconnect_begin_def
  suspend_def closed_session_def overlapped_def


section \<open>Properties of the token generator\<close>

lemma length_ALPHABET62: "length ALPHABET62 = 62"
  by (simp add: ALPHABET62_def)

lemma ALPHABET62_nth_mem: "v < (62 :: byte) \<Longrightarrow> ALPHABET62 ! unat v \<in> set ALPHABET62"
  by (simp add: length_ALPHABET62 word_less_nat_alt)

lemma genToken_scan_length_mono: "length out \<le> length (genToken_scan n buf out)"
proof (induction buf arbitrary: out)
  case Nil
  show ?case by simp
next
  case (Cons b buf)
  have "length out \<le> length (genToken_scan n buf out)"
    and "length (out @ [ALPHABET62 ! unat (b AND MASK_6BITS)])
          \<le> length (genToken_scan n buf (out @ [ALPHABET62 ! unat (b AND MASK_6BITS)]))"
    by (rule Cons.IH)+
  then show ?case by (simp add: Let_def)
qed

lemma genToken_scan_length_le: "length out \<le> n \<Longrightarrow> length (genToken_scan n buf out) \<le> n"
  by (induction buf arbitrary: out) (simp_all add: Let_def)

lemma genToken_scan_set:
  "set out \<subseteq> set ALPHABET62 \<Longrightarrow> set (genToken_scan n buf out) \<subseteq> set ALPHABET62"
  by (induction buf arbitrary: out) (simp_all add: Let_def ALPHABET62_nth_mem)

lemma genToken_scan_stuck:
  "length (genToken_scan n buf out) = length out \<Longrightarrow> genToken_scan n buf out = out"
proof (induction buf)
  case Nil
  show ?case by simp
next
  case (Cons b buf)
  show ?case
  proof (cases "length out < n \<and> b AND MASK_6BITS < 62")
    case True
    have "length (out @ [ALPHABET62 ! unat (b AND MASK_6BITS)])
           \<le> length (genToken_scan n buf (out @ [ALPHABET62 ! unat (b AND MASK_6BITS)]))"
      by (rule genToken_scan_length_mono)
    with True Cons.prems show ?thesis by (simp add: Let_def)
  next
    case False
    with Cons show ?thesis by (auto simp: Let_def)
  qed
qed

lemma genToken_scan_progress:
  "length out < n \<Longrightarrow> \<exists>b \<in> set buf. accepted b \<Longrightarrow> length out < length (genToken_scan n buf out)"
proof (induction buf arbitrary: out)
  case Nil
  then show ?case by simp
next
  case (Cons b buf)
  show ?case
  proof (cases "accepted b")
    case True
    have "length (out @ [ALPHABET62 ! unat (b AND MASK_6BITS)])
            \<le> length (genToken_scan n buf (out @ [ALPHABET62 ! unat (b AND MASK_6BITS)]))"
      by (rule genToken_scan_length_mono)
    with True Cons.prems(1) show ?thesis by (simp add: Let_def accepted_def)
  next
    case False
    with Cons.prems(2) have "\<exists>b \<in> set buf. accepted b" by auto
    from Cons.IH [OF Cons.prems(1) this] False Cons.prems(1)
    show ?thesis by (simp add: Let_def accepted_def)
  qed
qed

lemma bufsize_pos: "0 < k \<Longrightarrow> 0 < bufsize k"
  by (simp add: bufsize_def)

text \<open>Whatever the loop returns has the requested length and only alphabet characters.\<close>

lemma genToken_loop_partial_aux:
  assumes ret: "genToken_loop rnd0 n0 pos0 out0 = Some r0"
  shows "length out0 \<le> n0 \<and> set out0 \<subseteq> set ALPHABET62
           \<longrightarrow> length r0 = n0 \<and> set r0 \<subseteq> set ALPHABET62"
proof (rule genToken_loop.raw_induct
    [where P = "\<lambda>rnd n pos out r. length out \<le> n \<and> set out \<subseteq> set ALPHABET62
                  \<longrightarrow> length r = n \<and> set r \<subseteq> set ALPHABET62", OF _ ret])
  fix f :: "(nat \<Rightarrow> byte) \<Rightarrow> nat \<Rightarrow> nat \<Rightarrow> string \<Rightarrow> string option"
  fix rnd n pos out r
  assume IH: "\<And>rnd n pos out r. f rnd n pos out = Some r \<Longrightarrow>
       length out \<le> n \<and> set out \<subseteq> set ALPHABET62 \<longrightarrow> length r = n \<and> set r \<subseteq> set ALPHABET62"
  assume eq: "(if length out < n
        then case randomBytes rnd pos (bufsize (n - length out)) of
               (buf, pos') \<Rightarrow> f rnd n pos' (genToken_scan n buf out)
        else Some out) = Some r"
  show "length out \<le> n \<and> set out \<subseteq> set ALPHABET62 \<longrightarrow> length r = n \<and> set r \<subseteq> set ALPHABET62"
  proof (cases "length out < n")
    case True
    with eq
    have call: "f rnd n (pos + bufsize (n - length out))
                  (genToken_scan n (map rnd [pos..<pos + bufsize (n - length out)]) out) = Some r"
      by (simp add: randomBytes_def)
    from IH [OF call] True show ?thesis
      by (simp add: genToken_scan_length_le genToken_scan_set)
  next
    case False
    with eq show ?thesis by auto
  qed
qed

lemma genToken_loop_step:
  "length out < n \<Longrightarrow>
   genToken_loop rnd n pos out =
     genToken_loop rnd n (pos + bufsize (n - length out))
       (genToken_scan n (map rnd [pos..<pos + bufsize (n - length out)]) out)"
  by (subst genToken_loop.simps) (simp add: randomBytes_def)

text \<open>
  An accepted byte further along the sequence makes the output grow after finitely many
  rounds: a round either reaches the byte or leaves the output as it was and moves on.
\<close>

lemma genToken_loop_grows:
  "length out < n \<Longrightarrow> pos \<le> j \<Longrightarrow> accepted (rnd j) \<Longrightarrow>
   \<exists>pos' out'. length out < length out' \<and> length out' \<le> n
      \<and> genToken_loop rnd n pos out = genToken_loop rnd n pos' out'"
proof (induction "j - pos" arbitrary: pos rule: less_induct)
  case less
  let ?k = "bufsize (n - length out)"
  let ?out = "genToken_scan n (map rnd [pos..<pos + ?k]) out"
  have step: "genToken_loop rnd n pos out = genToken_loop rnd n (pos + ?k) ?out"
    by (rule genToken_loop_step [OF less.prems(1)])
  have le: "length ?out \<le> n"
    using less.prems(1) by (simp add: genToken_scan_length_le)
  have kpos: "0 < ?k"
    using less.prems(1) by (simp add: bufsize_pos)
  show ?case
  proof (cases "j < pos + ?k")
    case True
    with less.prems(2,3) have "\<exists>b \<in> set (map rnd [pos..<pos + ?k]). accepted b"
      by auto
    from genToken_scan_progress [OF less.prems(1) this] le step
    show ?thesis by blast
  next
    case False
    show ?thesis
    proof (cases "length out < length ?out")
      case True
      with le step show ?thesis by blast
    next
      case eq: False
      have "length out \<le> length ?out" by (rule genToken_scan_length_mono)
      with eq have "length ?out = length out" by simp
      then have same: "?out = out" by (rule genToken_scan_stuck)
      from False kpos have "j - (pos + ?k) < j - pos" and "pos + ?k \<le> j" by simp_all
      from less.hyps [OF this(1) less.prems(1) this(2) less.prems(3)] step same
      show ?thesis by simp
    qed
  qed
qed

lemma genToken_loop_returns:
  "\<forall>i. \<exists>j\<ge>i. accepted (rnd j) \<Longrightarrow> length out \<le> n \<Longrightarrow> \<exists>r. genToken_loop rnd n pos out = Some r"
proof (induction "n - length out" arbitrary: pos out rule: less_induct)
  case less
  show ?case
  proof (cases "length out < n")
    case False
    then show ?thesis by (subst genToken_loop.simps) simp
  next
    case True
    from less.prems(1) obtain j where j: "pos \<le> j" "accepted (rnd j)" by blast
    from True j have "\<exists>pos' out'. length out < length out' \<and> length out' \<le> n
      \<and> genToken_loop rnd n pos out = genToken_loop rnd n pos' out'"
      by (rule genToken_loop_grows)
    then obtain pos' out' where g: "length out < length out'" "length out' \<le> n"
      "genToken_loop rnd n pos out = genToken_loop rnd n pos' out'" by blast
    from g(1,2) have "n - length out' < n - length out" by simp
    from less.hyps [OF this less.prems(1) g(2)] g(3) show ?thesis by simp
  qed
qed

text \<open>
  C10. For every requested length \<open>n\<close>, a token that \<open>genToken\<close> returns has exactly \<open>n\<close>
  characters, all of them from the 62-character alphabet, so neither \<open>-\<close> nor \<open>_\<close> occurs;
  and \<open>genToken\<close> does return a token whenever the random source keeps supplying bytes whose
  low six bits are below 62.
\<close>

theorem genToken_base62:
  "(\<forall>out. genToken rnd n = Some out \<longrightarrow>
       length out = n \<and> set out \<subseteq> set ALPHABET62
       \<and> CHR ''-'' \<notin> set out \<and> CHR ''_'' \<notin> set out)
   \<and> ((\<forall>i. \<exists>j\<ge>i. accepted (rnd j)) \<longrightarrow> (\<exists>out. genToken rnd n = Some out))"
proof (intro conjI allI impI)
  fix out
  assume "genToken rnd n = Some out"
  then have r: "genToken_loop rnd n 0 [] = Some out" by (simp add: genToken_def)
  from genToken_loop_partial_aux [OF r]
  have p: "length out = n" "set out \<subseteq> set ALPHABET62" by simp_all
  have "CHR ''-'' \<notin> set ALPHABET62" "CHR ''_'' \<notin> set ALPHABET62"
    by (simp_all add: ALPHABET62_def)
  with p show "length out = n" "set out \<subseteq> set ALPHABET62"
    "CHR ''-'' \<notin> set out" "CHR ''_'' \<notin> set out" by auto
next
  assume fair: "\<forall>i. \<exists>j\<ge>i. accepted (rnd j)"
  from genToken_loop_returns [OF fair, of "[]" n 0]
  show "\<exists>out. genToken rnd n = Some out" by (simp add: genToken_def)
qed

theorem genToken_base62_witness:
  "(\<forall>i. \<exists>j\<ge>i. accepted (demo_rnd j)) \<and> genToken demo_rnd 3 = Some ''BDF''
   \<and> length ''BDF'' = 3 \<and> set ''BDF'' \<subseteq> set ALPHABET62"
proof -
  have fair: "\<forall>i. \<exists>j\<ge>i. accepted (demo_rnd j)"
  proof
    fix i
    have "accepted (demo_rnd (64 * i + 1))"
      by (simp add: demo_rnd_def accepted_def MASK_6BITS_def)
    moreover have "i \<le> 64 * i + 1" by simp
    ultimately show "\<exists>j\<ge>i. accepted (demo_rnd j)" by blast
  qed
  have run: "genToken demo_rnd 3 = Some ''BDF''"
    by (simp add: genToken_def genToken_loop.simps randomBytes_def bufsize_def demo_rnd_def
        MASK_6BITS_def ALPHABET62_def upt_rec)
  from genToken_base62 [of demo_rnd 3] fair run show ?thesis by simp
qed


section \<open>Properties of the lease lock\<close>

lemma map_of_update_same: "map_of (AList.update k v r) k = Some v"
  by (simp add: update_conv')

text \<open>
  C1. With a valid lease time, for every lock name: while the key is absent, acquire writes
  the token it drew with the configured time to live and returns the lease, and an acquire
  of any process on the store so left returns null; while the key exists, acquire returns
  null after its single conditional write, leaving the store and the timers as they were.
\<close>

theorem acquire_exclusive:
  assumes ttl: "0 < LOCK_TTL_MS cfg"
  shows "(map_of (redis st) (lock_key sid) = None \<longrightarrow>
            (\<exists>l st'. acquireSessionLock cfg sid st = (Inr (Some l), st')
               \<and> key l = lock_key sid \<and> token l = uuids st (uuid_next st)
               \<and> map_of (redis st') (lock_key sid)
                    = Some (RString (token l) (Some (LOCK_TTL_MS cfg)))
               \<and> fst (acquireSessionLock cfg sid (other\<lparr>redis := redis st'\<rparr>)) = Inr None))
       \<and> (map_of (redis st) (lock_key sid) \<noteq> None \<longrightarrow>
            (\<exists>st'. acquireSessionLock cfg sid st = (Inr None, st')
               \<and> redis st' = redis st \<and> intervals st' = intervals st
               \<and> uuid_next st' = uuid_next st + 1))"
  using ttl
  by (auto simp: acquireSessionLock_def randomUUID_def redis_set_px_nx_def Let_def
        map_of_update_same)

theorem acquire_exclusive_witness:
  "0 < LOCK_TTL_MS fallback_config
   \<and> map_of (redis (demo_state [])) (lock_key ''s'') = None
   \<and> fst (acquireSessionLock fallback_config ''s'' (demo_state []))
       = Inr (Some \<lparr>key = ''lock:wa:s'', token = ''u'', renewTimer = 0\<rparr>)
   \<and> redis (snd (acquireSessionLock fallback_config ''s'' (demo_state [])))
       = [(''lock:wa:s'', RString ''u'' (Some 10000))]
   \<and> fst (acquireSessionLock fallback_config ''s''
            (demo_state [(''lock:wa:s'', RString ''u'' (Some 10000))])) = Inr None"
  using acquire_exclusive [of fallback_config "demo_state []" "''s''" "demo_state []"]
  by (simp add: fallback_config_def demo_state_def initial_state_def demo_uuids_def lock_key_def
      acquireSessionLock_def randomUUID_def redis_set_px_nx_def Let_def)

text \<open>
  C2. A renew or a release of a lease whose token is not the value stored at the lock key
  (the key is absent, holds another token, or holds no string) leaves the store as it is:
  both scripts answer 0 without a write, so nothing is extended and nothing is deleted.
\<close>

theorem stale_token_noop:
  assumes "\<forall>t. map_of (redis st) (key l) \<noteq> Some (RString (token l) t)"
  shows "redis (renew cfg l st) = redis st \<and> redis (release l st) = redis st
       \<and> (\<forall>res r. RENEW_LUA (redis st) (key l) (token l) ttl = Inr (res, r)
             \<longrightarrow> res = 0 \<and> r = redis st)
       \<and> (\<forall>res r. RELEASE_LUA (redis st) (key l) (token l) = Inr (res, r)
             \<longrightarrow> res = 0 \<and> r = redis st)"
  using assms
  by (auto simp: renew_def release_def RENEW_LUA_def RELEASE_LUA_def clearInterval_def Let_def
      split: option.splits rval.splits sum.splits)

theorem stale_token_noop_witness:
  "(\<forall>t. map_of (redis (demo_state [(''lock:wa:s'', RString ''new'' (Some 4000))])) ''lock:wa:s''
          \<noteq> Some (RString ''old'' t))
   \<and> redis (renew fallback_config \<lparr>key = ''lock:wa:s'', token = ''old'', renewTimer = 0\<rparr>
              (demo_state [(''lock:wa:s'', RString ''new'' (Some 4000))]))
       = [(''lock:wa:s'', RString ''new'' (Some 4000))]
   \<and> redis (release \<lparr>key = ''lock:wa:s'', token = ''old'', renewTimer = 0\<rparr>
              (demo_state [(''lock:wa:s'', RString ''new'' (Some 4000))]))
       = [(''lock:wa:s'', RString ''new'' (Some 4000))]"
  using stale_token_noop
    [of "demo_state [(''lock:wa:s'', RString ''new'' (Some 4000))]"
        "\<lparr>key = ''lock:wa:s'', token = ''old'', renewTimer = 0\<rparr>" fallback_config]
  by (simp add: demo_state_def initial_state_def)


section \<open>Properties of the credential store\<close>

lemma map_of_redis_del: "map_of (redis_del r ks) k = (if k \<in> set ks then None else map_of r k)"
  by (induction ks arbitrary: r) (auto simp: delete_conv')

lemma map_of_pipeline_exec:
  "map_of (pipeline_exec r p) k = (if k \<in> set (concat p) then None else map_of r k)"
  unfolding pipeline_exec_def
  by (induction p arbitrary: r) (auto simp: map_of_redis_del)

lemma deleteRedisAuth_scan_result:
  "\<exists>p'. deleteRedisAuth_scan r pat c p = Inr p'
       \<and> set (concat p') = set (concat p) \<union> {k \<in> set (map fst (drop c r)). stringmatch pat k}"
proof (induction r pat c p rule: deleteRedisAuth_scan.induct)
  case (1 r pat c p)
  let ?keys = "filter (stringmatch pat) (map fst (take 200 (drop c r)))"
  let ?p1 = "if ?keys \<noteq> [] then p @ [?keys] else p"
  have split: "set (map fst (drop c r))
      = set (map fst (take 200 (drop c r))) \<union> set (map fst (drop (c + 200) r))"
  proof -
    have "set (take 200 (drop c r) @ drop 200 (drop c r)) = set (drop c r)"
      by (simp only: append_take_drop_id)
    then have "set (drop c r) = set (take 200 (drop c r)) \<union> set (drop (c + 200) r)"
      by (simp add: add.commute)
    then show ?thesis by (simp add: image_Un)
  qed
  have p1: "set (concat ?p1) = set (concat p) \<union> set ?keys"
    by (cases "?keys = []") simp_all
  show ?case
  proof (cases "length r \<le> c + 200")
    case True
    then have "drop (c + 200) r = []" by simp
    with split have "set (map fst (drop c r)) = set (map fst (take 200 (drop c r)))" by simp
    moreover from True have "deleteRedisAuth_scan r pat c p = Inr ?p1"
      by (subst deleteRedisAuth_scan.simps) (simp add: redis_scan_def Let_def)
    ultimately show ?thesis using p1 by auto
  next
    case False
    then have scan: "redis_scan r c pat 200 = Inr (c + 200, ?keys)"
      by (simp add: redis_scan_def)
    have nz: "c + 200 \<noteq> 0" by simp
    from "1.IH" [OF scan refl refl nz]
    obtain p' where p': "deleteRedisAuth_scan r pat (c + 200) ?p1 = Inr p'"
      "set (concat p') = set (concat ?p1) \<union> {k \<in> set (map fst (drop (c + 200) r)). stringmatch pat k}"
      by auto
    from False have "deleteRedisAuth_scan r pat c p = deleteRedisAuth_scan r pat (c + 200) ?p1"
      by (subst deleteRedisAuth_scan.simps) (simp add: redis_scan_def Let_def)
    with p' p1 split show ?thesis by auto
  qed
qed

lemma glob_star_skip: "glob p s \<Longrightarrow> glob (CHR ''*'' # p) s"
  by (cases s) simp_all

lemma glob_star_all: "glob [CHR ''*''] s"
  by (induction s) simp_all

lemma glob_literal_prefix:
  "CHR ''['' \<notin> set p \<Longrightarrow> CHR 0x5C \<notin> set p \<Longrightarrow> glob q s \<Longrightarrow> glob (p @ q) (p @ s)"
proof (induction p)
  case Nil
  then show ?case by simp
next
  case (Cons c p)
  then have IH: "glob (p @ q) (p @ s)" by simp
  from Cons.prems have c: "c \<noteq> CHR ''[''" "c \<noteq> CHR 0x5C" by auto
  show ?case
  proof (cases "c = CHR ''*''")
    case True
    from IH have "glob (CHR ''*'' # p @ q) (p @ s)" by (rule glob_star_skip)
    with True show ?thesis by simp
  next
    case False
    with c IH show ?thesis by simp
  qed
qed

lemma baileysPattern_matches:
  assumes "CHR ''['' \<notin> set sid" "CHR 0x5C \<notin> set sid"
  shows "stringmatch (''baileys:'' @ sid @ '':*'') (''baileys:'' @ sid @ '':'' @ rest)"
proof -
  have "glob ((''baileys:'' @ sid @ '':'') @ ''*'') ((''baileys:'' @ sid @ '':'') @ rest)"
    using assms by (intro glob_literal_prefix glob_star_all) auto
  then show ?thesis by (simp add: stringmatch_def)
qed

lemma deleteRedisAuth_result:
  assumes "redis_smembers r (sessSetKey sid) = Inr tokens"
  shows "\<exists>p. deleteRedisAuth sid r = Inr (pipeline_exec r p)
          \<and> set (concat p) = set (map tokenKey tokens) \<union> {sessSetKey sid}
               \<union> {k \<in> set (map fst r). stringmatch (''baileys:'' @ sid @ '':*'') k}"
proof -
  let ?p1 = "(if tokens \<noteq> [] then [map tokenKey tokens] else []) @ [[sessSetKey sid]]"
  from deleteRedisAuth_scan_result [of r "''baileys:'' @ sid @ '':*''" 0 ?p1]
  obtain p' where p': "deleteRedisAuth_scan r (''baileys:'' @ sid @ '':*'') 0 ?p1 = Inr p'"
    "set (concat p') = set (concat ?p1) \<union> {k \<in> set (map fst (drop 0 r)). stringmatch (''baileys:'' @ sid @ '':*'') k}"
    by blast
  have "deleteRedisAuth sid r = Inr (pipeline_exec r p')"
    using assms p'(1) by (simp add: deleteRedisAuth_def Let_def)
  moreover have "set (concat ?p1) = set (map tokenKey tokens) \<union> {sessSetKey sid}" by auto
  ultimately show ?thesis using p'(2) by auto
qed

lemma redis_smembers_total:
  "(\<forall>v t. map_of r k \<noteq> Some (RString v t)) \<Longrightarrow> \<exists>tokens. redis_smembers r k = Inr tokens"
  by (auto simp: redis_smembers_def split: option.splits rval.splits)

lemma deleteRedisAuth_wipes:
  assumes del: "deleteRedisAuth sid r = Inr r'"
    and safe: "CHR ''['' \<notin> set sid" "CHR 0x5C \<notin> set sid"
  shows "map_of r' (''baileys:'' @ sid @ '':'' @ rest) = None"
    and "map_of r' (sessSetKey sid) = None"
    and "redis_smembers r (sessSetKey sid) = Inr tokens \<Longrightarrow> t \<in> set tokens \<Longrightarrow> map_of r' (tokenKey t) = None"
    and "map_of r k = None \<Longrightarrow> map_of r' k = None"
proof -
  from del obtain tokens' where tk: "redis_smembers r (sessSetKey sid) = Inr tokens'"
    by (auto simp: deleteRedisAuth_def split: sum.splits)
  from deleteRedisAuth_result [OF tk] del
  obtain p where p: "r' = pipeline_exec r p"
    "set (concat p) = set (map tokenKey tokens') \<union> {sessSetKey sid}
               \<union> {k \<in> set (map fst r). stringmatch (''baileys:'' @ sid @ '':*'') k}"
    by auto
  show "map_of r' (sessSetKey sid) = None"
    using p by (simp add: map_of_pipeline_exec)
  show "map_of r k = None \<Longrightarrow> map_of r' k = None"
    using p by (simp add: map_of_pipeline_exec)
  show "redis_smembers r (sessSetKey sid) = Inr tokens \<Longrightarrow> t \<in> set tokens \<Longrightarrow> map_of r' (tokenKey t) = None"
    using p tk by (auto simp: map_of_pipeline_exec)
  show "map_of r' (''baileys:'' @ sid @ '':'' @ rest) = None"
  proof (cases "map_of r (''baileys:'' @ sid @ '':'' @ rest)")
    case None
    with p show ?thesis by (simp add: map_of_pipeline_exec)
  next
    case (Some v)
    then have "''baileys:'' @ sid @ '':'' @ rest \<in> set (map fst r)"
      by (metis map_of_eq_None_iff option.distinct(1) set_map)
    with baileysPattern_matches [OF safe, of rest] p show ?thesis
      by (simp add: map_of_pipeline_exec)
  qed
qed

text \<open>
  C8. For a session id without the pattern characters \<open>[\<close> and \<open>\\<close> and a store whose
  token-set key for the session is absent or a set: \<open>deleteRedisAuth\<close> returns, and in the
  store it leaves the credential blob, every keyed entry of the session, the session's
  token set and the mapping of each of its tokens are gone, so that a load for the same id
  returns freshly initialized credentials.
\<close>

theorem deleteAll_then_load:
  assumes safe: "CHR ''['' \<notin> set sid" "CHR 0x5C \<notin> set sid"
    and typed: "\<forall>v t. map_of (redis st) (sessSetKey sid) \<noteq> Some (RString v t)"
  shows "\<exists>r' tokens. deleteRedisAuth sid (redis st) = Inr r'
           \<and> redis_smembers (redis st) (sessSetKey sid) = Inr tokens
           \<and> useRedisAuth ext sid lg (st\<lparr>redis := r'\<rparr>) = (Inr (initAuthCreds ext), st\<lparr>redis := r'\<rparr>)
           \<and> map_of r' (kCreds sid) = None
           \<and> (\<forall>type ident. map_of r' (keyOf sid type ident) = None)
           \<and> map_of r' (sessSetKey sid) = None
           \<and> (\<forall>t \<in> set tokens. map_of r' (tokenKey t) = None)"
proof -
  from redis_smembers_total [OF typed]
  obtain tokens where tk: "redis_smembers (redis st) (sessSetKey sid) = Inr tokens" by blast
  from deleteRedisAuth_result [OF tk]
  obtain r' where del: "deleteRedisAuth sid (redis st) = Inr r'" by blast
  note w = deleteRedisAuth_wipes [OF del safe]
  have creds: "map_of r' (kCreds sid) = None"
    using w(1) [of "''creds''"] by (simp add: kCreds_def)
  have keyed: "map_of r' (keyOf sid type ident) = None" for type ident
    using w(1) [of "type @ '':'' @ ident"] by (simp add: keyOf_def)
  have load: "useRedisAuth ext sid lg (st\<lparr>redis := r'\<rparr>)
                = (Inr (initAuthCreds ext), st\<lparr>redis := r'\<rparr>)"
    using creds by (simp add: useRedisAuth_def redis_get_def)
  from del tk load creds keyed w(2) w(3) [OF tk] show ?thesis by blast
qed

theorem deleteAll_then_load_witness:
  "CHR ''['' \<notin> set ''a'' \<and> CHR 0x5C \<notin> set ''a''
   \<and> (\<forall>v t. map_of (redis (demo_state session_a_store)) (sessSetKey ''a'') \<noteq> Some (RString v t))
   \<and> deleteRedisAuth ''a'' session_a_store = Inr [(''baileys:b:creds'', RString ''{b}'' None)]
   \<and> fst (useRedisAuth demo_ext ''a'' True
            (demo_state [(''baileys:b:creds'', RString ''{b}'' None)])) = Inr ''{}''"
  using deleteAll_then_load [of "''a''" "demo_state session_a_store" demo_ext True]
  by (simp add: session_a_store_def eval_defs)

text \<open>
  C6. When the credential key is absent or holds a string, the load never raises. If the
  key is absent (or the string is empty, which the load treats as absent) it returns
  freshly initialized credentials and does nothing else. If the string is present and does
  not parse, it returns freshly initialized credentials and writes the warning to the
  logger it was given.
\<close>

theorem load_credentials:
  assumes "redis_get (redis st) (kCreds sid) = Inr blob"
  shows "(blob = None \<or> blob = Some [] \<longrightarrow>
            useRedisAuth ext sid lg st = (Inr (initAuthCreds ext), st))
       \<and> (\<forall>s. blob = Some s \<and> s \<noteq> [] \<and> JSON_parse ext s = None \<longrightarrow>
            useRedisAuth ext sid lg st =
              (Inr (initAuthCreds ext),
               if lg then logger Warn ''Failed to parse creds JSON; reinitializing creds'' sid st
               else st))
       \<and> (\<exists>c. fst (useRedisAuth ext sid lg st) = Inr c)"
  using assms
  by (auto simp: useRedisAuth_def split: option.splits)

theorem load_credentials_witness:
  "redis_get (redis (demo_state [(''baileys:s:creds'', RString ''garbage'' None)])) (kCreds ''s'')
     = Inr (Some ''garbage'')
   \<and> JSON_parse demo_ext ''garbage'' = None
   \<and> fst (useRedisAuth demo_ext ''s'' True
            (demo_state [(''baileys:s:creds'', RString ''garbage'' None)])) = Inr ''{}''
   \<and> log (snd (useRedisAuth demo_ext ''s'' True
                 (demo_state [(''baileys:s:creds'', RString ''garbage'' None)])))
       = [(Warn, ''Failed to parse creds JSON; reinitializing creds'', ''s'')]
   \<and> redis_get (redis (demo_state [])) (kCreds ''s'') = Inr None
   \<and> useRedisAuth demo_ext ''s'' True (demo_state []) = (Inr ''{}'', demo_state [])
   \<and> redis_get (redis (demo_state [(''baileys:s:creds'', RString [] None)])) (kCreds ''s'')
       = Inr (Some [])
   \<and> useRedisAuth demo_ext ''s'' True (demo_state [(''baileys:s:creds'', RString [] None)])
       = (Inr ''{}'', demo_state [(''baileys:s:creds'', RString [] None)])"
  using load_credentials
          [of "demo_state [(''baileys:s:creds'', RString ''garbage'' None)]" "''s''"
              "Some ''garbage''" demo_ext True]
        load_credentials [of "demo_state []" "''s''" None demo_ext True]
        load_credentials
          [of "demo_state [(''baileys:s:creds'', RString [] None)]" "''s''" "Some []"
              demo_ext True]
  by (simp add: eval_defs)


section \<open>How the primitive updates act on the state\<close>

named_theorems frame

lemma logger_frame [frame]:
  "sessions (logger l m i st) = sessions st" "heap (logger l m i st) = heap st"
  "next_addr (logger l m i st) = next_addr st" "socks (logger l m i st) = socks st"
  "next_sock (logger l m i st) = next_sock st" "timeouts (logger l m i st) = timeouts st"
  "intervals (logger l m i st) = intervals st" "next_timer (logger l m i st) = next_timer st"
  "redis (logger l m i st) = redis st" "uuids (logger l m i st) = uuids st"
  "uuid_next (logger l m i st) = uuid_next st" "log (logger l m i st) = log st @ [(l, m, i)]"
  by (simp_all add: logger_def)

lemma clearTimeout_frame [frame]:
  "sessions (clearTimeout t st) = sessions st" "heap (clearTimeout t st) = heap st"
  "next_addr (clearTimeout t st) = next_addr st" "socks (clearTimeout t st) = socks st"
  "next_sock (clearTimeout t st) = next_sock st"
  "timeouts (clearTimeout t st) = filter (\<lambda>tm. timer_id tm \<noteq> t) (timeouts st)"
  "intervals (clearTimeout t st) = intervals st" "next_timer (clearTimeout t st) = next_timer st"
  "redis (clearTimeout t st) = redis st" "uuids (clearTimeout t st) = uuids st"
  "uuid_next (clearTimeout t st) = uuid_next st" "log (clearTimeout t st) = log st"
  by (simp_all add: clearTimeout_def)

lemma clearInterval_frame [frame]:
  "sessions (clearInterval i st) = sessions st" "heap (clearInterval i st) = heap st"
  "next_addr (clearInterval i st) = next_addr st" "socks (clearInterval i st) = socks st"
  "next_sock (clearInterval i st) = next_sock st" "timeouts (clearInterval i st) = timeouts st"
  "intervals (clearInterval i st) = filter (\<lambda>iv. interval_id iv \<noteq> i) (intervals st)"
  "next_timer (clearInterval i st) = next_timer st"
  "redis (clearInterval i st) = redis st" "uuids (clearInterval i st) = uuids st"
  "uuid_next (clearInterval i st) = uuid_next st" "log (clearInterval i st) = log st"
  by (simp_all add: clearInterval_def)

lemma update_entry_frame [frame]:
  "sessions (update_entry a f st) = sessions st"
  "heap (update_entry a f st) = (heap st)(a := f (heap st a))"
  "next_addr (update_entry a f st) = next_addr st" "socks (update_entry a f st) = socks st"
  "next_sock (update_entry a f st) = next_sock st" "timeouts (update_entry a f st) = timeouts st"
  "intervals (update_entry a f st) = intervals st"
  "next_timer (update_entry a f st) = next_timer st"
  "redis (update_entry a f st) = redis st" "uuids (update_entry a f st) = uuids st"
  "uuid_next (update_entry a f st) = uuid_next st" "log (update_entry a f st) = log st"
  by (simp_all add: update_entry_def)

lemma store_entry_frame [frame]:
  "sessions (store_entry sid e st) = (sessions st)(sid \<mapsto> next_addr st)"
  "heap (store_entry sid e st) = (heap st)(next_addr st := e)"
  "next_addr (store_entry sid e st) = next_addr st + 1" "socks (store_entry sid e st) = socks st"
  "next_sock (store_entry sid e st) = next_sock st" "timeouts (store_entry sid e st) = timeouts st"
  "intervals (store_entry sid e st) = intervals st"
  "next_timer (store_entry sid e st) = next_timer st"
  "redis (store_entry sid e st) = redis st" "uuids (store_entry sid e st) = uuids st"
  "uuid_next (store_entry sid e st) = uuid_next st" "log (store_entry sid e st) = log st"
  by (simp_all add: store_entry_def)

lemma removeAllListeners_frame [frame]:
  "sessions (removeAllListeners x st) = sessions st" "heap (removeAllListeners x st) = heap st"
  "next_addr (removeAllListeners x st) = next_addr st"
  "socks (removeAllListeners x st) =
     (case socks st x of
        None \<Rightarrow> socks st
      | Some s \<Rightarrow> (socks st)(x \<mapsto> s\<lparr>on_connection_update := None, on_creds_update := None\<rparr>))"
  "next_sock (removeAllListeners x st) = next_sock st"
  "timeouts (removeAllListeners x st) = timeouts st"
  "intervals (removeAllListeners x st) = intervals st"
  "next_timer (removeAllListeners x st) = next_timer st"
  "redis (removeAllListeners x st) = redis st" "uuids (removeAllListeners x st) = uuids st"
  "uuid_next (removeAllListeners x st) = uuid_next st" "log (removeAllListeners x st) = log st"
  by (simp_all add: removeAllListeners_def split: option.splits)

lemma sock_logout_frame [frame]:
  "sessions (sock_logout x st) = sessions st" "heap (sock_logout x st) = heap st"
  "next_addr (sock_logout x st) = next_addr st"
  "socks (sock_logout x st) =
     (case socks st x of None \<Rightarrow> socks st | Some s \<Rightarrow> (socks st)(x \<mapsto> s\<lparr>loggedOut := True\<rparr>))"
  "next_sock (sock_logout x st) = next_sock st" "timeouts (sock_logout x st) = timeouts st"
  "intervals (sock_logout x st) = intervals st" "next_timer (sock_logout x st) = next_timer st"
  "redis (sock_logout x st) = redis st" "uuids (sock_logout x st) = uuids st"
  "uuid_next (sock_logout x st) = uuid_next st" "log (sock_logout x st) = log st"
  by (simp_all add: sock_logout_def split: option.splits)

lemma release_frame [frame]:
  "sessions (release l st) = sessions st" "heap (release l st) = heap st"
  "next_addr (release l st) = next_addr st" "socks (release l st) = socks st"
  "next_sock (release l st) = next_sock st" "timeouts (release l st) = timeouts st"
  "intervals (release l st) = filter (\<lambda>iv. interval_id iv \<noteq> renewTimer l) (intervals st)"
  "next_timer (release l st) = next_timer st"
  "redis (release l st) = released (redis st) l"
  "uuids (release l st) = uuids st"
  "uuid_next (release l st) = uuid_next st" "log (release l st) = log st"
  by (simp_all add: release_def released_def clearInterval_def Let_def split: sum.splits)

lemma wipe_frame [frame]:
  "sessions (snd (wipe sid st)) = sessions st" "heap (snd (wipe sid st)) = heap st"
  "next_addr (snd (wipe sid st)) = next_addr st" "socks (snd (wipe sid st)) = socks st"
  "next_sock (snd (wipe sid st)) = next_sock st" "timeouts (snd (wipe sid st)) = timeouts st"
  "intervals (snd (wipe sid st)) = intervals st"
  "next_timer (snd (wipe sid st)) = next_timer st"
  "redis (snd (wipe sid st)) = wiped sid (redis st)"
  "uuids (snd (wipe sid st)) = uuids st"
  "uuid_next (snd (wipe sid st)) = uuid_next st" "log (snd (wipe sid st)) = log st"
  by (simp_all add: wipe_def wiped_def split: sum.splits)



section \<open>The registry invariant in uninterrupted runs\<close>

lemma registry_locked_frame:
  "sessions st' = sessions st \<Longrightarrow> heap st' = heap st \<Longrightarrow> next_addr st' = next_addr st
     \<Longrightarrow> registry_locked st \<Longrightarrow> registry_locked st'"
  by (simp add: registry_locked_def)

lemma registry_locked_update_entry:
  "(\<And>e. lock (f e) = lock e) \<Longrightarrow> registry_locked st \<Longrightarrow> registry_locked (update_entry a f st)"
  by (simp add: registry_locked_def frame)

lemma registry_locked_store_entry:
  "registry_locked st \<Longrightarrow> lock e \<noteq> None \<Longrightarrow> registry_locked (store_entry sid e st)"
  by (auto simp: registry_locked_def frame less_Suc_eq)

lemma registry_locked_forget:
  "registry_locked st \<Longrightarrow> registry_locked (st\<lparr>sessions := (sessions st)(sid := None)\<rparr>)"
  by (auto simp: registry_locked_def split: if_splits)

lemma registry_locked_prims:
  "registry_locked st \<Longrightarrow> registry_locked (logger l m i st)"
  "registry_locked st \<Longrightarrow> registry_locked (clearTimeout t st)"
  "registry_locked st \<Longrightarrow> registry_locked (clearInterval t st)"
  "registry_locked st \<Longrightarrow> registry_locked (removeAllListeners x st)"
  "registry_locked st \<Longrightarrow> registry_locked (sock_logout x st)"
  "registry_locked st \<Longrightarrow> registry_locked (release k st)"
  "registry_locked st \<Longrightarrow> registry_locked (snd (wipe sid st))"
  "registry_locked st \<Longrightarrow> registry_locked (st\<lparr>redis := r\<rparr>)"
  by (simp_all add: registry_locked_def frame)

lemma acquireSessionLock_frame [frame]:
  "sessions (snd (acquireSessionLock cfg sid st)) = sessions st"
  "heap (snd (acquireSessionLock cfg sid st)) = heap st"
  "next_addr (snd (acquireSessionLock cfg sid st)) = next_addr st"
  "socks (snd (acquireSessionLock cfg sid st)) = socks st"
  "next_sock (snd (acquireSessionLock cfg sid st)) = next_sock st"
  "timeouts (snd (acquireSessionLock cfg sid st)) = timeouts st"
  "uuids (snd (acquireSessionLock cfg sid st)) = uuids st"
  "uuid_next (snd (acquireSessionLock cfg sid st)) = uuid_next st + 1"
  "log (snd (acquireSessionLock cfg sid st)) = log st"
  by (simp_all add: acquireSessionLock_def randomUUID_def Let_def split: sum.splits prod.splits)

lemma useRedisAuth_frame [frame]:
  "sessions (snd (useRedisAuth ext sid lg st)) = sessions st"
  "heap (snd (useRedisAuth ext sid lg st)) = heap st"
  "next_addr (snd (useRedisAuth ext sid lg st)) = next_addr st"
  "socks (snd (useRedisAuth ext sid lg st)) = socks st"
  "next_sock (snd (useRedisAuth ext sid lg st)) = next_sock st"
  "timeouts (snd (useRedisAuth ext sid lg st)) = timeouts st"
  "intervals (snd (useRedisAuth ext sid lg st)) = intervals st"
  "next_timer (snd (useRedisAuth ext sid lg st)) = next_timer st"
  "redis (snd (useRedisAuth ext sid lg st)) = redis st"
  "uuids (snd (useRedisAuth ext sid lg st)) = uuids st"
  "uuid_next (snd (useRedisAuth ext sid lg st)) = uuid_next st"
  by (simp_all add: useRedisAuth_def frame split: sum.splits option.splits)

lemma createSession_lock_inv:
  assumes "registry_locked st"
  shows "registry_locked (snd (createSession_lock cfg sid st))"
    and "fst (createSession_lock cfg sid st) = Inr u \<Longrightarrow>
           sessions (snd (createSession_lock cfg sid st)) sid \<noteq> None"
proof -
  have fr: "registry_locked (snd (acquireSessionLock cfg sid st))"
    by (rule registry_locked_frame [OF _ _ _ assms]) (simp_all add: frame)
  show "registry_locked (snd (createSession_lock cfg sid st))"
    using assms fr
    by (auto simp: createSession_lock_def Let_def intro!: registry_locked_store_entry
        split: option.splits prod.splits sum.splits)
  show "fst (createSession_lock cfg sid st) = Inr u \<Longrightarrow>
           sessions (snd (createSession_lock cfg sid st)) sid \<noteq> None"
    by (auto simp: createSession_lock_def Let_def frame
        split: option.splits prod.splits sum.splits if_splits)
qed

lemma createSession_detach_inv:
  "registry_locked st \<Longrightarrow> registry_locked (snd (createSession_detach sid force existing st))"
  "sessions (snd (createSession_detach sid force existing st)) = sessions st"
  by (auto simp: createSession_detach_def Let_def frame
      intro!: registry_locked_update_entry
      intro: registry_locked_frame [where st = st]
      split: option.splits)

lemma createSession_connect_inv:
  assumes "registry_locked st" "sessions st sid \<noteq> None"
  shows "registry_locked (snd (createSession_connect sid creds st))"
proof -
  from assms obtain cur where cur: "sessions st sid = Some cur" by auto
  with assms(1) have l: "lock (heap st cur) \<noteq> None" by (simp add: registry_locked_def)
  have "registry_locked (store_entry sid ((heap st cur)\<lparr>sock := Some (next_sock st), status := connecting\<rparr>) st)"
    using assms(1) l by (intro registry_locked_store_entry) simp_all
  then show ?thesis
    using cur by (simp add: createSession_connect_def Let_def registry_locked_def frame)
qed

lemma createSession_inv:
  assumes "registry_locked st"
  shows "registry_locked (snd (createSession ext cfg sid force st))"
proof -
  let ?l = "createSession_lock cfg sid st"
  let ?d = "createSession_detach sid force (sessions st sid) (snd ?l)"
  let ?u = "useRedisAuth ext sid True (snd ?d)"
  have il: "registry_locked (snd ?l)" by (rule createSession_lock_inv(1) [OF assms])
  have id: "registry_locked (snd ?d)" by (rule createSession_detach_inv(1) [OF il])
  have iu: "registry_locked (snd ?u)"
    by (rule registry_locked_frame [OF _ _ _ id]) (simp_all add: frame)
  have ic: "registry_locked st4"
    if "fst ?l = Inr u" "createSession_connect sid creds (snd ?u) = (a4, st4)" for u creds a4 st4
  proof -
    from createSession_lock_inv(2) [OF assms that(1)]
    have "sessions (snd ?u) sid \<noteq> None" by (simp add: frame createSession_detach_inv(2))
    with iu have "registry_locked (snd (createSession_connect sid creds (snd ?u)))"
      by (rule createSession_connect_inv)
    with that(2) show ?thesis by simp
  qed
  show ?thesis
    using assms il id iu ic
    by (auto simp: createSession_def Let_def split: option.splits prod.splits sum.splits if_splits)
qed


lemma getSession_inv:
  "registry_locked st \<Longrightarrow> registry_locked (snd (getSession ext cfg sid st))"
proof -
  assume inv: "registry_locked st"
  have "registry_locked (logger l m i (snd (createSession ext cfg sid False st)))" for l m i
    by (intro registry_locked_prims createSession_inv inv)
  with inv createSession_inv [OF inv, of ext cfg sid False] show ?thesis
    by (auto simp: getSession_def split: option.splits prod.splits sum.splits)
qed

lemma resetBackoff_inv:
  "registry_locked st \<Longrightarrow> registry_locked (resetBackoff cfg a st)"
  unfolding resetBackoff_def Let_def
  by (auto intro!: registry_locked_update_entry registry_locked_prims split: option.splits)

lemma registry_locked_arm:
  "registry_locked st \<Longrightarrow> registry_locked (st\<lparr>timeouts := ts, next_timer := n\<rparr>)"
  by (simp add: registry_locked_def)

lemma scheduleReconnect_inv:
  "registry_locked st \<Longrightarrow> registry_locked (scheduleReconnect cfg sid st)"
  unfolding scheduleReconnect_def Let_def
  by (auto intro!: registry_locked_update_entry registry_locked_prims registry_locked_arm
      split: option.splits)

lemma logoutSession_inv:
  assumes "registry_locked st"
  shows "registry_locked (snd (logoutSession ext cfg sid st))"
proof -
  let ?g = "getSession ext cfg sid st"
  have ig: "registry_locked (snd ?g)" by (rule getSession_inv [OF assms])
  have body: "registry_locked
     (let st2 = (case backoffTimer (heap st1 s) of Some t \<Rightarrow> clearTimeout t st1 | None \<Rightarrow> st1);
          st3 = update_entry s (\<lambda>e. e\<lparr>reconnecting := False\<rparr>) st2;
          st4 = (case sock (heap st3 s) of
                   Some x \<Rightarrow> sock_logout x (removeAllListeners x st3) | None \<Rightarrow> st3);
          st5 = (case lock (heap st4 s) of Some l \<Rightarrow> release l st4 | None \<Rightarrow> st4)
      in st5\<lparr>sessions := (sessions st5)(sid := None)\<rparr>)"
    if "registry_locked st1" for st1 :: "'a state" and s
    unfolding Let_def
    using that
    by (auto intro!: registry_locked_forget registry_locked_prims registry_locked_update_entry
        split: option.splits)
  show ?thesis
  proof (cases ?g)
    case (Pair o1 st1)
    with ig have i1: "registry_locked st1" by simp
    show ?thesis
    proof (cases o1)
      case None
      with Pair registry_locked_prims(7) [OF i1] show ?thesis by (simp add: logoutSession_def)
    next
      case (Some s)
      from registry_locked_prims(7) [OF body [OF i1, of s]] Pair Some show ?thesis
        by (simp add: logoutSession_def Let_def)
    qed
  qed
qed

lemma connection_update_inv:
  assumes "registry_locked st"
  shows "registry_locked (connection_update ext cfg sid a x u st)"
proof -
  define st1 where "st1 = (case qr u of
                   Some q \<Rightarrow>
                     if q \<noteq> [] \<and> status (heap st a) \<noteq> open' \<and> lastQr (heap st a) \<noteq> Some q
                     then update_entry a (\<lambda>e. e\<lparr>lastQr := Some q\<rparr>) st else st
                 | None \<Rightarrow> st)"
  have i1: "registry_locked st1"
    using assms by (auto simp: st1_def intro!: registry_locked_update_entry split: option.splits)
  have op: "registry_locked (logger l m i (resetBackoff cfg a (update_entry a
              (\<lambda>e. e\<lparr>status := open', userJid := jid, lastQr := None\<rparr>) st1)))" for l m i jid
    by (intro registry_locked_prims resetBackoff_inv registry_locked_update_entry i1) simp
  have cl: "registry_locked (logger l m i (update_entry a
              (\<lambda>e. e\<lparr>status := close, lastQr := None\<rparr>) st1))" for l m i
    by (intro registry_locked_prims registry_locked_update_entry i1) simp
  show ?thesis
    unfolding connection_update_def Let_def st1_def [symmetric]
    using i1 op cl by (auto intro: logoutSession_inv scheduleReconnect_inv)
qed

lemma emit_connection_update_inv:
  "registry_locked st \<Longrightarrow> registry_locked (emit_connection_update ext cfg x u st)"
  by (auto simp: emit_connection_update_def intro: connection_update_inv split: option.splits)

lemma emit_creds_update_inv:
  "registry_locked st \<Longrightarrow> registry_locked (emit_creds_update ext x c st)"
  by (auto simp: emit_creds_update_def creds_update_def saveCreds_def registry_locked_def
      split: option.splits)

lemma reconnect_timer_fired_inv:
  assumes "registry_locked st"
  shows "registry_locked (reconnect_timer_fired ext cfg sid s st)"
proof -
  let ?st1 = "update_entry s (\<lambda>e. e\<lparr>backoffTimer := None\<rparr>) st"
  have i1: "registry_locked ?st1" by (rule registry_locked_update_entry [OF _ assms]) simp
  have i2: "registry_locked (snd (createSession ext cfg sid True ?st1))"
    by (rule createSession_inv [OF i1])
  have i3: "registry_locked (logger l m i (update_entry s (\<lambda>e. e\<lparr>reconnecting := False\<rparr>)
              (snd (createSession ext cfg sid True ?st1))))" for l m i
    by (intro registry_locked_prims registry_locked_update_entry i2) simp
  show ?thesis
    using i2 i3
    by (auto simp: reconnect_timer_fired_def Let_def intro!: scheduleReconnect_inv
        split: prod.splits sum.splits)
qed

lemma fire_timeout_inv:
  "registry_locked st \<Longrightarrow> registry_locked (fire_timeout ext cfg t st)"
proof -
  assume inv: "registry_locked st"
  have "registry_locked (clearTimeout t st)"
    by (intro registry_locked_prims inv)
  with inv show ?thesis
    by (auto simp: fire_timeout_def intro: reconnect_timer_fired_inv split: option.splits)
qed

lemma fire_interval_inv:
  "registry_locked st \<Longrightarrow> registry_locked (fire_interval cfg i st)"
  by (auto simp: fire_interval_def renew_def Let_def frame registry_locked_def
      split: option.splits sum.splits)

lemma restore_attempts_inv:
  "registry_locked (fst s) \<Longrightarrow>
   registry_locked (fst (snd (restore_attempts ext cfg idle ident attempt s)))"
proof (induction ext cfg idle ident attempt s rule: restore_attempts.induct)
  case (1 ext cfg idle ident attempt st restored)
  from "1.prems" have inv: "registry_locked st" by simp
  let ?c = "createSession ext cfg ident False st"
  have ic: "registry_locked (snd ?c)" by (rule createSession_inv [OF inv])
  have il: "registry_locked (logger l m i (snd ?c))" for l m i
    by (intro registry_locked_prims ic)
  have ir: "registry_locked ((snd ?c)\<lparr>redis := r\<rparr>)" for r
    by (intro registry_locked_prims ic)
  show ?case
  proof (cases "attempt \<le> RETRIES cfg")
    case False
    with inv show ?thesis by (subst restore_attempts.simps) simp
  next
    case True
    show ?thesis
    proof (cases ?c)
      case (Pair o1 st1)
      show ?thesis
      proof (cases o1)
        case (Inr a)
        with True Pair ic show ?thesis by (subst restore_attempts.simps) simp
      next
        case (Inl e)
        show ?thesis
        proof (cases "is_423 e \<and> attempt < RETRIES cfg")
          case False
          with True Pair Inl il show ?thesis
            by (subst restore_attempts.simps) (auto split: if_splits)
        next
          case retry: True
          have "registry_locked (fst (snd (restore_attempts ext cfg idle ident (attempt + 1)
                  (st1\<lparr>redis := idle (RETRY_DELAY_MS cfg) (redis st1)\<rparr>, restored))))"
            using "1.IH" [OF True Pair [symmetric] Inl] retry ir Pair by simp
          with True Pair Inl retry show ?thesis
            by (subst restore_attempts.simps) simp
        qed
      qed
    qed
  qed
qed

lemma restore_each_inv:
  "registry_locked (fst s) \<Longrightarrow> registry_locked (fst (restore_each ext cfg idle locked ids s))"
proof (induction ids arbitrary: s)
  case Nil
  then show ?case by (cases s) simp
next
  case (Cons ident ids)
  obtain st restored where s: "s = (st, restored)" by (cases s)
  with Cons.prems have inv: "registry_locked st" by simp
  show ?case
  proof (cases "ident \<in> set locked")
    case True
    have "registry_locked (logger Warn ''auto-restore: skip karena locked'' ident st)"
      by (intro registry_locked_prims inv)
    with True s Cons.IH [of "(logger Warn ''auto-restore: skip karena locked'' ident st, restored)"]
    show ?thesis by simp
  next
    case False
    obtain ok st1 restored1 where r: "restore_attempts ext cfg idle ident 0 (st, restored) = (ok, st1, restored1)"
      by (cases "restore_attempts ext cfg idle ident 0 (st, restored)") auto
    from restore_attempts_inv [of "(st, restored)" ext cfg idle ident 0] inv r
    have i1: "registry_locked st1" by simp
    then have "registry_locked (logger Info ''auto-restore: not restored'' ident st1)"
      by (intro registry_locked_prims)
    with i1 False s r
      Cons.IH [of "(if \<not> ok then logger Info ''auto-restore: not restored'' ident st1 else st1, restored1)"]
    show ?thesis by simp
  qed
qed

lemma restoreAll_inv:
  assumes "registry_locked st"
  shows "registry_locked (snd (restoreAllSessionsFromRedis ext cfg idle st))"
proof -
  have "registry_locked (logger l m i (fst (restore_each ext cfg idle locked ids (st, []))))"
    for l m i locked ids
    by (intro registry_locked_prims restore_each_inv) (simp add: assms)
  with assms show ?thesis
    by (auto simp: restoreAllSessionsFromRedis_def split: sum.splits prod.splits)
       (metis fst_conv)
qed

lemma step_inv: "registry_locked st \<Longrightarrow> registry_locked (step ext cfg idle p st)"
proof (cases p)
  case (ConnectorLogin x jid)
  assume "registry_locked st"
  then show ?thesis
    by (auto simp: ConnectorLogin connector_login_def registry_locked_def split: option.splits)
next
  case (StoreChanges r)
  assume "registry_locked st"
  then show ?thesis by (simp add: StoreChanges registry_locked_def)
qed (simp_all add: createSession_inv getSession_inv logoutSession_inv restoreAll_inv
      emit_connection_update_inv emit_creds_update_inv fire_timeout_inv fire_interval_inv)

lemma run_inv: "registry_locked st \<Longrightarrow> registry_locked (run ext cfg idle ps st)"
  by (induction ps arbitrary: st) (simp_all add: step_inv)

lemma initial_state_inv: "registry_locked (initial_state r u)"
  by (simp add: registry_locked_def initial_state_def)

text \<open>
  In a run of \<open>step\<close>, where every call has returned before the next event, every entry
  the registry holds carries a lock: entries are stored only after the lock stage and
  are only copied or removed later.
\<close>

lemma uninterrupted_run_locked:
  "sessions (run ext cfg idle ps (initial_state r u)) sid = Some a \<Longrightarrow>
     lock (heap (run ext cfg idle ps (initial_state r u)) a) \<noteq> None"
  using run_inv [OF initial_state_inv, of ext cfg idle ps r u]
  by (simp add: registry_locked_def)


section \<open>Overlapping calls\<close>

text \<open>
  A call that goes on to its end with nothing else in between does what the operation of
  \<open>step\<close> does.
\<close>

lemma createSession_auth_complete:
  "complete ext cfg (createSession_auth ext sid force existing k st)
     = (case createSession_detach sid force existing st of
          (Inl e, st2) \<Rightarrow> complete ext cfg (createSession_return sid k (Inl e) st2)
        | (Inr u, st2) \<Rightarrow>
            (case useRedisAuth ext sid True st2 of
               (Inl e, st3) \<Rightarrow> complete ext cfg (createSession_return sid k (Inl e) st3)
             | (Inr creds, st3) \<Rightarrow>
                 (case createSession_connect sid creds st3 of
                    (a, st4) \<Rightarrow> complete ext cfg (createSession_return sid k (Inr a) st4))))"
  by (simp add: createSession_auth_def split: prod.splits sum.splits)

lemma createSession_complete:
  "complete ext cfg (createSession_begin ext cfg sid force k st)
     = (case createSession ext cfg sid force st of
          (v, st') \<Rightarrow> complete ext cfg (createSession_return sid k v st'))"
proof (cases "case sessions st sid of
                 Some a \<Rightarrow>
                   if sock (heap st a) \<noteq> None \<and> status (heap st a) \<noteq> close \<and> \<not> force
                   then Some a else None
               | None \<Rightarrow> None")
  case (Some a)
  then show ?thesis by (simp add: createSession_begin_def createSession_def)
next
  case None
  show ?thesis
  proof (cases "case sessions st sid of Some a \<Rightarrow> lock (heap st a) = None | None \<Rightarrow> True")
    case False
    then have l: "createSession_lock cfg sid st = (Inr (), st)"
      by (simp add: createSession_lock_def)
    from None False l show ?thesis
      by (simp add: createSession_begin_def createSession_def createSession_auth_complete
          split: prod.splits sum.splits)
  next
    case True
    obtain r st1 where a: "acquireSessionLock cfg sid st = (r, st1)"
      by (cases "acquireSessionLock cfg sid st")
    show ?thesis
    proof (cases r)
      case (Inl e)
      with a True have l: "createSession_lock cfg sid st = (Inl e, st1)"
        by (simp add: createSession_lock_def)
      from None True a Inl l show ?thesis
        by (simp add: createSession_begin_def createSession_def)
    next
      case (Inr lo)
      show ?thesis
      proof (cases lo)
        case n: None
        with a True Inr have l: "createSession_lock cfg sid st = (Inl (Locked sid), st1)"
          by (simp add: createSession_lock_def)
        from None True a Inr n l show ?thesis
          by (simp add: createSession_begin_def createSession_def)
      next
        case (Some lk)
        let ?st2 = "store_entry sid
                      ((case sessions st sid of Some a \<Rightarrow> heap st1 a | None \<Rightarrow> blank_entry)
                         \<lparr>lock := Some lk\<rparr>) st1"
        from a True Inr Some have l: "createSession_lock cfg sid st = (Inr (), ?st2)"
          by (simp add: createSession_lock_def)
        from None True a Inr Some l show ?thesis
          by (simp add: createSession_begin_def createSession_def createSession_auth_complete
              split: prod.splits sum.splits)
      qed
    qed
  qed
qed

lemma createSession_uninterrupted:
  "complete ext cfg (createSession_begin ext cfg sid force Api_createSession st)
     = snd (createSession ext cfg sid force st)"
  by (simp add: createSession_complete createSession_return_def split: prod.splits)

lemma getSession_complete:
  "complete ext cfg (getSession_begin ext cfg sid g st)
     = (case getSession ext cfg sid st of
          (v, st') \<Rightarrow> complete ext cfg (getSession_return sid g v st'))"
  by (simp add: getSession_begin_def getSession_def createSession_complete
        createSession_return_def split: option.splits prod.splits sum.splits)

lemma getSession_uninterrupted:
  "complete ext cfg (getSession_begin ext cfg sid Api_getSession st)
     = snd (getSession ext cfg sid st)"
  by (simp add: getSession_complete getSession_return_def split: prod.splits)

lemma logoutSession_uninterrupted:
  "complete ext cfg (logoutSession_begin ext cfg sid st) = snd (logoutSession ext cfg sid st)"
  by (simp add: logoutSession_begin_def getSession_complete getSession_return_def
        logoutSession_def Let_def split: option.splits prod.splits)

lemma reconnect_uninterrupted:
  "complete ext cfg (reconnect_begin ext cfg t st) = fire_timeout ext cfg t st"
  by (simp add: reconnect_begin_def fire_timeout_def reconnect_timer_fired_def
        createSession_complete createSession_return_def Let_def
      split: option.splits prod.splits sum.splits)

text \<open>
  C9. Session \<open>s\<close> is registered with its lock and a socket that has closed.
  \<open>logoutSession\<close> has called the release of the lock and waits for the answer (line 252)
  when \<open>createSession\<close> is called without \<open>force\<close>: it finds the entry with its lock, skips
  the acquisition (line 106) and waits for the credentials (line 132). The logout goes on
  and deletes the registry entry (line 256); \<open>createSession\<close> goes on, finds no entry to
  copy (line 145) and stores one with the new socket and without a lock, while the lock
  key is gone from the store and no renew interval is armed. Both calls have returned.
  Run one after the other, in either order, the same two calls leave the registry with a
  locked entry or with none.
\<close>

theorem overlapping_logout_stores_unlocked_entry:
  "sessions closed_session ''s'' = Some 1
   \<and> lock (heap closed_session 1) = Some \<lparr>key = ''lock:wa:s'', token = ''u'', renewTimer = 0\<rparr>
   \<and> status (heap closed_session 1) = close
   \<and> sessions (fst overlapped) ''s'' = Some 2
   \<and> heap (fst overlapped) 2 = blank_entry\<lparr>sock := Some 1, status := connecting\<rparr>
   \<and> lock (heap (fst overlapped) 2) = None
   \<and> map_option on_connection_update (socks (fst overlapped) 1) = Some (Some (''s'', 2))
   \<and> map_of (redis (fst overlapped)) (lock_key ''s'') = None
   \<and> intervals (fst overlapped) = []
   \<and> snd overlapped 0 = None \<and> snd overlapped 1 = None
   \<and> sessions (run demo_ext fallback_config undisturbed
                  [LogoutSession ''s'', CreateSession ''s'' False] closed_session) ''s'' = Some 3
   \<and> lock (heap (run demo_ext fallback_config undisturbed
                     [LogoutSession ''s'', CreateSession ''s'' False] closed_session) 3)
       = Some \<lparr>key = ''lock:wa:s'', token = ''uu'', renewTimer = 2\<rparr>
   \<and> sessions (run demo_ext fallback_config undisturbed
                  [CreateSession ''s'' False, LogoutSession ''s''] closed_session) ''s'' = None"
  by (simp add: async_defs eval_defs)


section \<open>Properties of the restore scanner\<close>































lemma lock_key_inject [simp]: "lock_key i = lock_key j \<longleftrightarrow> i = j"
  by (simp add: lock_key_def)

lemma kCreds_not_lock_key [simp]: "kCreds i \<noteq> lock_key j"
  by (simp add: kCreds_def lock_key_def)

















section \<open>Termination of a session\<close>










section \<open>Creation and reconnection of a session\<close>

text \<open>
  C5. If the registry has an entry for the id that owns a connector socket and
  whose status is not closed, and \<open>force\<close> is false, \<open>createSession\<close> returns that entry and
  leaves the whole state as it is: no lock is acquired, no socket is built and the
  registry is not touched.
\<close>

theorem createSession_idempotent:
  assumes "sessions st sid = Some a"
    and "sock (heap st a) \<noteq> None"
    and "status (heap st a) \<noteq> close"
  shows "createSession ext cfg sid False st = (Inr a, st)"
  using assms by (simp add: createSession_def)

theorem createSession_idempotent_witness:
  "sessions live_session ''s'' = Some 1 \<and> sock (heap live_session 1) \<noteq> None
   \<and> status (heap live_session 1) \<noteq> close
   \<and> createSession demo_ext fallback_config ''s'' False live_session = (Inr 1, live_session)"
proof -
  have h: "sessions live_session ''s'' = Some 1" "sock (heap live_session 1) \<noteq> None"
    "status (heap live_session 1) \<noteq> close"
    by (simp_all add: live_session_def eval_defs)
  from createSession_idempotent [OF h] h show ?thesis by blast
qed

text \<open>
  C5, without the socket condition. An entry without a socket exists while a creation is
  under way and after a creation that failed at the credential load. Its status is
  \<open>connecting\<close>, and \<open>createSession\<close> with \<open>force\<close> false does not return it: it builds
  a socket and puts a new entry in the registry.
\<close>

theorem createSession_without_socket_counterexample:
  "sessions half_created ''s'' = Some 0 \<and> status (heap half_created 0) \<noteq> close
   \<and> createSession demo_ext fallback_config ''s'' False half_created \<noteq> (Inr 0, half_created)
   \<and> fst (createSession demo_ext fallback_config ''s'' False half_created) = Inr 1
   \<and> sessions (snd (createSession demo_ext fallback_config ''s'' False half_created)) ''s''
        = Some 1
   \<and> socks half_created 0 = None
   \<and> socks (snd (createSession demo_ext fallback_config ''s'' False half_created)) 0 \<noteq> None"
  by (simp add: half_created_def eval_defs)

text \<open>
  The delay \<open>scheduleReconnect\<close> arms: twice the stored delay, the minimum when none is
  stored, capped at the maximum; nothing is armed while \<open>reconnecting\<close> is set.
\<close>

lemma scheduleReconnect_delay:
  assumes "sessions st sid = Some s" "\<not> reconnecting (heap st s)"
  shows "timeouts (scheduleReconnect cfg sid st) =
           timeouts st @
             [\<lparr>timer_id = next_timer st, timer_session = sid, timer_entry = s,
               timer_delay =
                 min (case backoffMs (heap st s) of
                        Some b \<Rightarrow> if b \<noteq> 0 then b * 2 else RECONNECT_MIN cfg
                      | None \<Rightarrow> RECONNECT_MIN cfg)
                     (RECONNECT_MAX cfg)\<rparr>]"
  using assms by (simp add: scheduleReconnect_def Let_def frame split: option.splits)

lemma scheduleReconnect_pending:
  assumes "sessions st sid = Some s" "reconnecting (heap st s)"
  shows "scheduleReconnect cfg sid st = st"
  using assms by (simp add: scheduleReconnect_def)

text \<open>
  C4. With minimum 2000 and maximum 30000: a session is created, its socket opens, and the
  socket closes with a timeout. The reconnect is armed with delay 4000, not 2000:
  \<open>resetBackoff\<close> stored the minimum and \<open>scheduleReconnect\<close> doubled it. And when the
  socket of a first reconnect (armed with 2000) closes again without having opened, no
  timer is armed at all, since the new entry was copied with \<open>reconnecting\<close> set.
\<close>

theorem reconnect_delay_after_open:
  "RECONNECT_MIN fallback_config = 2000 \<and> RECONNECT_MAX fallback_config = 30000
   \<and> map timer_delay (timeouts (run demo_ext fallback_config undisturbed
        [CreateSession ''s'' False, ConnectionUpdate 0 (closed_with 408)] (demo_state [])))
       = [2000]
   \<and> map timer_delay (timeouts (run demo_ext fallback_config undisturbed
        [CreateSession ''s'' False, ConnectionUpdate 0 opened, ConnectionUpdate 0 (closed_with 408)]
        (demo_state [])))
       = [4000]
   \<and> timeouts (run demo_ext fallback_config undisturbed
        [CreateSession ''s'' False, ConnectionUpdate 0 (closed_with 408), TimeoutFires 1,
         ConnectionUpdate 1 (closed_with 408)] (demo_state []))
       = []"
  by (simp add: eval_defs)


end
